theory Spec2Isabelle
  imports Complex_Main "HOL-Library.Sublist"
begin

section \<open>Strings and the class vocabulary\<close>

text \<open>
  A Python string is a sequence of Unicode code points, modelled as the list of their
  numbers; \<open>lit\<close> is an ASCII literal of the source, and \<open>key in label\<close> is the occurrence of
  \<open>key\<close> as a contiguous run of \<open>label\<close>. \<open>str.lower\<close> is a builtin of Python, driven by the
  Unicode character database and by the context of a character (a capital sigma becomes
  a final sigma at the end of a word). It is not part of the program: the model takes it
  as the parameter \<open>str_lower\<close>, and what is proved holds for every such function.

  The vocabulary is \<open>model.config.id2label\<close>, a Python dict from class-id to class name.
  It is modelled as an association list in the dict's iteration order; \<open>.items()\<close> is the
  list itself and \<open>id2label[k]\<close> is \<open>map_of\<close>.
\<close>

type_synonym pystr = "nat list"

definition lit :: "string \<Rightarrow> pystr" where
  "lit s = map of_char s"

type_synonym vocabulary = "(int \<times> pystr) list"

text \<open>Python's \<open>key in label\<close> on strings: \<open>key\<close> occurs as a contiguous run of \<open>label\<close>.\<close>

definition str_in :: "pystr \<Rightarrow> pystr \<Rightarrow> bool" where
  "str_in key label = sublist key label"

subsection \<open>\<open>get_id_by_name\<close>\<close>

text \<open>
  \<^verbatim>\<open>
  found_ids = []
  for id, label in model.config.id2label.items():
      for key in keyword_list:
          if key.lower() in label.lower():
              found_ids.append(id)
  return list(set(found_ids))
  \<close>
  The two loops are recursions over the items and over the keywords, with \<open>found_ids\<close> as
  the accumulator. \<open>list(set(found_ids))\<close> has no specified order and the callers only sum
  over it, so the result is the set.
\<close>

fun key_loop :: "(pystr \<Rightarrow> pystr) \<Rightarrow> int \<Rightarrow> pystr \<Rightarrow> pystr list \<Rightarrow> int list \<Rightarrow> int list" where
  "key_loop str_lower i label [] found_ids = found_ids"
| "key_loop str_lower i label (key # keys) found_ids =
     key_loop str_lower i label keys
       (if str_in (str_lower key) (str_lower label) then found_ids @ [i] else found_ids)"

fun item_loop :: "(pystr \<Rightarrow> pystr) \<Rightarrow> vocabulary \<Rightarrow> pystr list \<Rightarrow> int list \<Rightarrow> int list" where
  "item_loop str_lower [] keyword_list found_ids = found_ids"
| "item_loop str_lower ((i, label) # items) keyword_list found_ids =
     item_loop str_lower items keyword_list (key_loop str_lower i label keyword_list found_ids)"

definition get_id_by_name :: "(pystr \<Rightarrow> pystr) \<Rightarrow> vocabulary \<Rightarrow> pystr list \<Rightarrow> int set" where
  "get_id_by_name str_lower id2label keyword_list =
     set (item_loop str_lower id2label keyword_list [])"

text \<open>The module-level groups, computed once from the vocabulary.\<close>

definition BIKE_LANE_IDS :: "(pystr \<Rightarrow> pystr) \<Rightarrow> vocabulary \<Rightarrow> int set" where
  "BIKE_LANE_IDS str_lower id2label = get_id_by_name str_lower id2label [lit ''bike lane'']"

definition WATER_IDS :: "(pystr \<Rightarrow> pystr) \<Rightarrow> vocabulary \<Rightarrow> int set" where
  "WATER_IDS str_lower id2label = get_id_by_name str_lower id2label [lit ''water'']"

definition NATURE_IDS :: "(pystr \<Rightarrow> pystr) \<Rightarrow> vocabulary \<Rightarrow> int set" where
  "NATURE_IDS str_lower id2label =
     get_id_by_name str_lower id2label
       [lit ''vegetation'', lit ''terrain'', lit ''mountain'', lit ''sand'', lit ''sky'']"

definition ROAD_IDS :: "(pystr \<Rightarrow> pystr) \<Rightarrow> vocabulary \<Rightarrow> int set" where
  "ROAD_IDS str_lower id2label =
     get_id_by_name str_lower id2label [lit ''road'', lit ''service lane'', lit ''crosswalk'']"

definition UGLY_IDS :: "(pystr \<Rightarrow> pystr) \<Rightarrow> vocabulary \<Rightarrow> int set" where
  "UGLY_IDS str_lower id2label =
     get_id_by_name str_lower id2label
       [lit ''building'', lit ''wall'', lit ''fence'', lit ''car'', lit ''truck'', lit ''bus'',
        lit ''barrier'']"

subsection \<open>The specification's wording of the match\<close>

text \<open>
  The specification speaks of a keyword that occurs in a name as a case-insensitive
  substring: some contiguous run of the name has the keyword's length and agrees with it
  character by character up to the case of letters. Two code points agree up to case when
  they are equal, or are the capital and the small form of one of the letters A to Z. The
  case pairs of other alphabets are left out: they could only add matches, and the only
  non-ASCII occurrence used below is a verbatim one.
\<close>

definition letter_pairs :: "(nat \<times> nat) list" where
  "letter_pairs = zip (lit ''ABCDEFGHIJKLMNOPQRSTUVWXYZ'') (lit ''abcdefghijklmnopqrstuvwxyz'')"

definition ci_eq :: "nat \<Rightarrow> nat \<Rightarrow> bool" where
  "ci_eq a b = (a = b \<or> (a, b) \<in> set letter_pairs \<or> (b, a) \<in> set letter_pairs)"

definition ci_substring :: "pystr \<Rightarrow> pystr \<Rightarrow> bool" where
  "ci_substring key name = (\<exists>ps seg ss. name = ps @ seg @ ss \<and> list_all2 ci_eq key seg)"

definition spec_build_group :: "vocabulary \<Rightarrow> pystr set \<Rightarrow> int set" where
  "spec_build_group vocab keywords =
     {i. \<exists>name key. (i, name) \<in> set vocab \<and> key \<in> keywords \<and> ci_substring key name}"

subsection \<open>\<open>str.lower\<close> on ASCII and on Greek letters\<close>

text \<open>
  On a string of ASCII characters \<open>str.lower\<close> moves the letters A to Z to a to z and keeps
  every other character (\<open>lower_ascii\<close>). \<open>lower_on_ascii\<close> says that a function does so.
\<close>

definition is_upper :: "nat \<Rightarrow> bool" where
  "is_upper c = (65 \<le> c \<and> c \<le> 90)"

definition is_ascii :: "pystr \<Rightarrow> bool" where
  "is_ascii s = list_all (\<lambda>c. c < 128) s"

definition lower_ascii :: "pystr \<Rightarrow> pystr" where
  "lower_ascii s = map (\<lambda>c. if is_upper c then c + 32 else c) s"

definition lower_on_ascii :: "(pystr \<Rightarrow> pystr) \<Rightarrow> bool" where
  "lower_on_ascii str_lower = (\<forall>s. is_ascii s \<longrightarrow> str_lower s = lower_ascii s)"

text \<open>
  \<open>lower_greek\<close> is \<open>str.lower\<close> on the strings made of ASCII characters other than the
  five case-ignorable ones (apostrophe, full stop, colon, circumflex, grave accent) and of
  the Greek letters alpha to omega, capital (913 to 937) and small (945 to 969). A capital
  goes to its small form, 32 code points up. The capital sigma (931) goes to the final
  sigma (962) when a cased letter stands before it and none stands after it, and to the
  small sigma (963) otherwise.
\<close>

definition is_greek_capital :: "nat \<Rightarrow> bool" where
  "is_greek_capital c = (913 \<le> c \<and> c \<le> 937 \<and> c \<noteq> 930)"

definition is_cased :: "nat \<Rightarrow> bool" where
  "is_cased c = (is_upper c \<or> (97 \<le> c \<and> c \<le> 122) \<or> is_greek_capital c \<or> (945 \<le> c \<and> c \<le> 969))"

definition lower_cp :: "nat \<Rightarrow> nat" where
  "lower_cp c = (if is_upper c \<or> is_greek_capital c then c + 32 else c)"

fun lower_from :: "bool \<Rightarrow> pystr \<Rightarrow> pystr" where
  "lower_from cased_before [] = []"
| "lower_from cased_before (c # cs) =
     (if c = 931 then
        (if cased_before \<and> \<not> (case cs of [] \<Rightarrow> False | d # ds \<Rightarrow> is_cased d) then 962 else 963)
      else lower_cp c)
     # lower_from (is_cased c) cs"

definition lower_greek :: "pystr \<Rightarrow> pystr" where
  "lower_greek s = lower_from False s"

section \<open>Floating-point numbers\<close>

text \<open>
  Python's \<open>float\<close> and NumPy's \<open>float64\<close> are IEEE 754 binary64 numbers. A finite double
  is the real number it denotes; every operation computes the exact real result and
  rounds it to the nearest double, ties to the even significand. \<open>fl\<close> is that rounding
  with an exponent that is unbounded above: 53 significant bits in the normal range and
  a fixed spacing of \<open>2 powr - 1074\<close> below \<open>2 powr - 1022\<close>. A result whose rounding reaches
  \<open>2 ^ 1024\<close> overflows to an infinity (\<open>rnd\<close>). The two zeros are identified: they
  compare equal and this program never divides by a float.
\<close>

definition round_even :: "real \<Rightarrow> int" where
  "round_even y =
     (let f = \<lfloor>y\<rfloor>; d = y - of_int f
      in if d < 1/2 then f else if 1/2 < d then f + 1 else if even f then f else f + 1)"

definition ilog2 :: "real \<Rightarrow> int" where
  "ilog2 x = \<lfloor>log 2 x\<rfloor>"

definition expo :: "real \<Rightarrow> int" where
  "expo x = max (ilog2 x) (- 1022) - 52"

definition fl_pos :: "real \<Rightarrow> real" where
  "fl_pos x = of_int (round_even (x / 2 powr of_int (expo x))) * 2 powr of_int (expo x)"

definition fl :: "real \<Rightarrow> real" where
  "fl x = (if x = 0 then 0 else if 0 < x then fl_pos x else - fl_pos (- x))"

datatype fp = Fin real | PInf | NInf | NaN

definition rnd :: "real \<Rightarrow> fp" where
  "rnd x = (let y = fl x in if 2 ^ 1024 \<le> y then PInf else if y \<le> - (2 ^ 1024) then NInf else Fin y)"

text \<open>A decimal literal of the source denotes the double nearest to it.\<close>

definition dbl :: "real \<Rightarrow> fp" where
  "dbl x = Fin (fl x)"

fun fp_add :: "fp \<Rightarrow> fp \<Rightarrow> fp" where
  "fp_add (Fin a) (Fin b) = rnd (a + b)"
| "fp_add NaN y = NaN"
| "fp_add x NaN = NaN"
| "fp_add PInf NInf = NaN"
| "fp_add NInf PInf = NaN"
| "fp_add PInf y = PInf"
| "fp_add x PInf = PInf"
| "fp_add NInf y = NInf"
| "fp_add x NInf = NInf"

fun fp_neg :: "fp \<Rightarrow> fp" where
  "fp_neg (Fin a) = Fin (- a)"
| "fp_neg PInf = NInf"
| "fp_neg NInf = PInf"
| "fp_neg NaN = NaN"

definition fp_sub :: "fp \<Rightarrow> fp \<Rightarrow> fp" where
  "fp_sub x y = fp_add x (fp_neg y)"

text \<open>The sign of a value that is not NaN: \<open>1\<close>, \<open>0\<close> or \<open>- 1\<close>.\<close>

fun fp_sign :: "fp \<Rightarrow> int" where
  "fp_sign (Fin a) = (if 0 < a then 1 else if a < 0 then - 1 else 0)"
| "fp_sign PInf = 1"
| "fp_sign NInf = - 1"
| "fp_sign NaN = 0"

definition inf_of_sign :: "int \<Rightarrow> fp" where
  "inf_of_sign s = (if s = 0 then NaN else if 0 < s then PInf else NInf)"

fun fp_mul :: "fp \<Rightarrow> fp \<Rightarrow> fp" where
  "fp_mul (Fin a) (Fin b) = rnd (a * b)"
| "fp_mul NaN y = NaN"
| "fp_mul x NaN = NaN"
| "fp_mul x y = inf_of_sign (fp_sign x * fp_sign y)"

text \<open>
  Division as NumPy performs it, with a warning instead of an exception: \<open>0 / 0\<close> is NaN
  and a non-zero value over zero is an infinity. Every divisor of this program is the
  conversion of a non-negative integer, so a zero divisor is the positive zero.
\<close>

fun fp_div :: "fp \<Rightarrow> fp \<Rightarrow> fp" where
  "fp_div (Fin a) (Fin b) = (if b = 0 then inf_of_sign (fp_sign (Fin a)) else rnd (a / b))"
| "fp_div NaN y = NaN"
| "fp_div x NaN = NaN"
| "fp_div (Fin a) y = Fin 0"
| "fp_div x (Fin b) = inf_of_sign (fp_sign x * (if b < 0 then - 1 else 1))"
| "fp_div x y = NaN"

fun fp_lt :: "fp \<Rightarrow> fp \<Rightarrow> bool" where
  "fp_lt (Fin a) (Fin b) = (a < b)"
| "fp_lt NaN y = False"
| "fp_lt x NaN = False"
| "fp_lt x NInf = False"
| "fp_lt PInf y = False"
| "fp_lt x y = True"

definition fp_gt :: "fp \<Rightarrow> fp \<Rightarrow> bool" where
  "fp_gt x y = fp_lt y x"

text \<open>
  The builtins \<open>min(a, b)\<close> and \<open>max(a, b)\<close> keep the first argument unless the second
  compares strictly smaller (larger); a NaN never does.
\<close>

definition py_min :: "fp \<Rightarrow> fp \<Rightarrow> fp" where
  "py_min a b = (if fp_lt b a then b else a)"

definition py_max :: "fp \<Rightarrow> fp \<Rightarrow> fp" where
  "py_max a b = (if fp_gt b a then b else a)"

section \<open>Python and NumPy scalars\<close>

text \<open>
  The pixel counts are Python integers or NumPy \<open>int64\<close> scalars, and the halved ugly count
  is a float of either kind. The kind decides what a division by zero does: Python raises
  \<open>ZeroDivisionError\<close>, NumPy returns NaN or an infinity. Counts are array sizes, below
  \<open>2 ^ 63\<close>, so the integers do not wrap.
\<close>

datatype scalar = PyInt int | NpInt int | PyFloat fp | NpFloat fp

datatype pyerr = ZeroDivisionError

definition on_ok :: "pyerr + 'a \<Rightarrow> ('a \<Rightarrow> pyerr + 'b) \<Rightarrow> pyerr + 'b" where
  "on_ok r f = (case r of Inl e \<Rightarrow> Inl e | Inr v \<Rightarrow> f v)"

text \<open>\<open>x / total\<close>, where \<open>total\<close> is the Python integer \<open>pred_seg.size\<close> (\<open>total_px\<close> below).\<close>

fun truediv :: "scalar \<Rightarrow> nat \<Rightarrow> pyerr + fp" where
  "truediv (PyInt a) total_px =
     (if total_px = 0 then Inl ZeroDivisionError else Inr (rnd (of_int a / of_nat total_px)))"
| "truediv (NpInt a) total_px = Inr (fp_div (rnd (of_int a)) (rnd (of_nat total_px)))"
| "truediv (PyFloat x) total_px =
     (if total_px = 0 then Inl ZeroDivisionError else Inr (fp_div x (rnd (of_nat total_px))))"
| "truediv (NpFloat x) total_px = Inr (fp_div x (rnd (of_nat total_px)))"

text \<open>\<open>x * c\<close> for a float \<open>c\<close>.\<close>

fun mul_float :: "scalar \<Rightarrow> fp \<Rightarrow> scalar" where
  "mul_float (PyInt a) c = PyFloat (fp_mul (rnd (of_int a)) c)"
| "mul_float (NpInt a) c = NpFloat (fp_mul (rnd (of_int a)) c)"
| "mul_float (PyFloat x) c = PyFloat (fp_mul x c)"
| "mul_float (NpFloat x) c = NpFloat (fp_mul x c)"

section \<open>\<open>calculate_score\<close>\<close>

text \<open>
  The label map \<open>pred_seg\<close> is a two-dimensional array of class-ids, given by its rows.
  \<open>Image.open\<close> and the segmentation model are outside the program: the input of the model
  is either \<open>Unreadable\<close> (\<open>Image.open\<close> raised) or the label map the segmentation returned.
\<close>

type_synonym label_map = "int list list"

datatype image = Unreadable | Segmented label_map

datatype status =
  Neutral | Waterfront | DedicatedBikeLane | GreenTunnel | CityStreetNoBikeLane | MixedUrban
  | Error

text \<open>The status strings of the source.\<close>

fun status_text :: "status \<Rightarrow> pystr" where
  "status_text Neutral = lit ''Neutral''"
| "status_text Waterfront = lit ''Waterfront '' @ [240, 376, 338, 352]"
| "status_text DedicatedBikeLane = lit ''Dedicated Bike Lane '' @ [240, 376, 353, 178]"
| "status_text GreenTunnel = lit ''Green Tunnel '' @ [240, 376, 338, 179]"
| "status_text CityStreetNoBikeLane = lit ''City St (No Bike Lane) '' @ [240, 376, 353, 8212]"
| "status_text MixedUrban = lit ''Mixed / Urban''"
| "status_text Error = lit ''Error''"

text \<open>What the function prints, line by line; a breakdown line carries its label and ratio.\<close>

datatype printed = ErrorOpening | BreakdownHeader | BreakdownLine pystr fp | BreakdownFooter

definition pixels :: "label_map \<Rightarrow> int list" where
  "pixels pred_seg = concat pred_seg"

text \<open>\<open>pred_seg.size\<close>\<close>

definition size_of :: "label_map \<Rightarrow> nat" where
  "size_of pred_seg = length (pixels pred_seg)"

text \<open>\<open>np.sum(pred_seg == i)\<close>\<close>

definition np_sum_eq :: "label_map \<Rightarrow> int \<Rightarrow> int" where
  "np_sum_eq pred_seg i = int (count_list (pixels pred_seg) i)"

text \<open>
  \<open>sum(np.sum(pred_seg == i) for i in IDS)\<close>: the builtin starts from the Python integer
  \<open>0\<close>, and the first \<open>int64\<close> added turns the sum into an \<open>int64\<close>.
\<close>

definition group_px :: "label_map \<Rightarrow> int set \<Rightarrow> scalar" where
  "group_px pred_seg ids = (if ids = {} then PyInt 0 else NpInt (\<Sum>i\<in>ids. np_sum_eq pred_seg i))"

text \<open>
  \<^verbatim>\<open>
  if water_ratio > 0.10:
      status = "Waterfront"; bonus = 0.3; ugly_px = ugly_px * 0.5
  elif bike_lane_ratio > 0.05:
      status = "Dedicated Bike Lane"; bonus = 0.2; penalty = 0
  elif nature_ratio > 0.40:
      status = "Green Tunnel"; bonus = 0.1
  elif (road_px / total) > 0.40:
      status = "City St (No Bike Lane)"; penalty = 0.2
  else:
      status = "Mixed / Urban"
  \<close>
  The block returns the status, the bonus, the penalty and the new value of \<open>ugly_px\<close>.
  The integer \<open>0\<close> of \<open>bonus\<close> and \<open>penalty\<close> is converted to the float zero when it is added.
\<close>

definition context_check ::
  "fp \<Rightarrow> fp \<Rightarrow> fp \<Rightarrow> scalar \<Rightarrow> scalar \<Rightarrow> nat \<Rightarrow> pyerr + (status \<times> fp \<times> fp \<times> scalar)" where
  "context_check bike_lane_ratio water_ratio nature_ratio road_px ugly_px total_px =
     (if fp_gt water_ratio (dbl (1/10)) then
        Inr (Waterfront, dbl (3/10), Fin 0, mul_float ugly_px (dbl (1/2)))
      else if fp_gt bike_lane_ratio (dbl (5/100)) then
        Inr (DedicatedBikeLane, dbl (2/10), Fin 0, ugly_px)
      else if fp_gt nature_ratio (dbl (4/10)) then
        Inr (GreenTunnel, dbl (1/10), Fin 0, ugly_px)
      else
        on_ok (truediv road_px total_px) (\<lambda>road_ratio.
          if fp_gt road_ratio (dbl (4/10)) then
            Inr (CityStreetNoBikeLane, Fin 0, dbl (2/10), ugly_px)
          else Inr (MixedUrban, Fin 0, Fin 0, ugly_px)))"

text \<open>
  \<^verbatim>\<open>
  score = 0.5 + (nature_ratio * 0.5) + (water_ratio * 1.5) + (bike_lane_ratio * 2.0)
  score = score - (ugly_px / total * 0.5) + bonus - penalty
  score = max(0.0, min(1.0, score))
  \<close>
\<close>

definition score_calc ::
  "fp \<Rightarrow> fp \<Rightarrow> fp \<Rightarrow> scalar \<Rightarrow> nat \<Rightarrow> fp \<Rightarrow> fp \<Rightarrow> pyerr + fp" where
  "score_calc bike_lane_ratio water_ratio nature_ratio ugly_px total_px bonus penalty =
     (let score =
        fp_add (fp_add (fp_add (dbl (1/2)) (fp_mul nature_ratio (dbl (1/2))))
                       (fp_mul water_ratio (dbl (3/2))))
               (fp_mul bike_lane_ratio (dbl 2))
      in on_ok (truediv ugly_px total_px) (\<lambda>ugly_ratio.
           let score = fp_sub (fp_add (fp_sub score (fp_mul ugly_ratio (dbl (1/2)))) bonus) penalty
           in Inr (py_max (Fin 0) (py_min (Fin 1) score))))"

subsection \<open>The debug breakdown\<close>

text \<open>\<open>str(class_id)\<close>\<close>

definition digit_char :: "nat \<Rightarrow> nat" where
  "digit_char d = 48 + d"

fun str_nat :: "nat \<Rightarrow> pystr" where
  "str_nat n = (if n < 10 then [digit_char n] else str_nat (n div 10) @ [digit_char (n mod 10)])"

declare str_nat.simps [simp del]

definition str_int :: "int \<Rightarrow> pystr" where
  "str_int i = (if i < 0 then lit ''-'' @ str_nat (nat (- i)) else str_nat (nat i))"

text \<open>
  \<open>np.unique(pred_seg, return_counts=True)\<close>: the distinct class-ids in ascending order,
  each with its number of pixels.
\<close>

definition np_unique :: "label_map \<Rightarrow> (int \<times> int) list" where
  "np_unique pred_seg =
     map (\<lambda>class_id. (class_id, np_sum_eq pred_seg class_id)) (sort (remdups (pixels pred_seg)))"

text \<open>
  \<^verbatim>\<open>
  try:
      label = model.config.id2label[class_id]
  except:
      label = str(class_id)
  \<close>
\<close>

definition label_of :: "vocabulary \<Rightarrow> int \<Rightarrow> pystr" where
  "label_of id2label class_id =
     (case map_of id2label class_id of Some label \<Rightarrow> label | None \<Rightarrow> str_int class_id)"

text \<open>
  \<^verbatim>\<open>
  for class_id, count in zip(unique, counts):
      ...
      pct = count / total
      if pct > 0.02:
          print(f"  - {label}: {pct:.1%}")
  \<close>
  \<open>count\<close> is an \<open>int64\<close>, so the division is NumPy's.
\<close>

fun breakdown_loop :: "vocabulary \<Rightarrow> nat \<Rightarrow> (int \<times> int) list \<Rightarrow> printed list" where
  "breakdown_loop id2label total_px [] = []"
| "breakdown_loop id2label total_px ((class_id, count) # rest) =
     (let label = label_of id2label class_id;
          pct = fp_div (rnd (of_int count)) (rnd (of_nat total_px))
      in (if fp_gt pct (dbl (2/100)) then [BreakdownLine label pct] else [])
         @ breakdown_loop id2label total_px rest)"

definition debug_report :: "vocabulary \<Rightarrow> label_map \<Rightarrow> bool \<Rightarrow> printed list" where
  "debug_report id2label pred_seg debug =
     (if debug then
        [BreakdownHeader]
        @ breakdown_loop id2label (size_of pred_seg) (np_unique pred_seg)
        @ [BreakdownFooter]
      else [])"

subsection \<open>The entry point\<close>

text \<open>
  The result is the exception that escapes, or what was printed together with the
  returned pair \<open>(score, status)\<close>.
\<close>

definition calculate_score ::
  "(pystr \<Rightarrow> pystr) \<Rightarrow> vocabulary \<Rightarrow> image \<Rightarrow> bool \<Rightarrow> pyerr + (printed list \<times> fp \<times> status)" where
  "calculate_score str_lower id2label img debug =
     (case img of
        Unreadable \<Rightarrow> Inr ([ErrorOpening], dbl (1/2), Error)
      | Segmented pred_seg \<Rightarrow>
          (let total_px = size_of pred_seg;
               bike_lane_px = group_px pred_seg (BIKE_LANE_IDS str_lower id2label);
               water_px = group_px pred_seg (WATER_IDS str_lower id2label);
               nature_px = group_px pred_seg (NATURE_IDS str_lower id2label);
               road_px = group_px pred_seg (ROAD_IDS str_lower id2label);
               ugly_px = group_px pred_seg (UGLY_IDS str_lower id2label)
           in on_ok (truediv bike_lane_px total_px) (\<lambda>bike_lane_ratio.
              on_ok (truediv water_px total_px) (\<lambda>water_ratio.
              on_ok (truediv nature_px total_px) (\<lambda>nature_ratio.
              on_ok (context_check bike_lane_ratio water_ratio nature_ratio road_px ugly_px total_px)
                (\<lambda>(status, bonus, penalty, ugly_px).
              on_ok (score_calc bike_lane_ratio water_ratio nature_ratio ugly_px total_px
                       bonus penalty) (\<lambda>score.
              Inr (debug_report id2label pred_seg debug, score, status))))))))"

section \<open>The specification's wording of the score\<close>

text \<open>
  The specification describes the computation on a vector of five group ratios, each the
  sum of the pixel counts of the group's class-ids divided by the total pixel count. The
  ratios, the thresholds and the score are doubles: a division or a sum below is the
  double operation, the exact result rounded by \<open>fl\<close>.
\<close>

record ratios =
  bike_lane_ratio :: real
  water_ratio :: real
  nature_ratio :: real
  road_ratio :: real
  ugly_ratio :: real

definition group_count :: "label_map \<Rightarrow> int set \<Rightarrow> nat" where
  "group_count pred_seg ids = (\<Sum>i\<in>ids. count_list (pixels pred_seg) i)"

definition ratio_of :: "nat \<Rightarrow> nat \<Rightarrow> real" where
  "ratio_of px total_px = fl (fl (real px) / fl (real total_px))"

definition group_ratios :: "(pystr \<Rightarrow> pystr) \<Rightarrow> vocabulary \<Rightarrow> label_map \<Rightarrow> ratios" where
  "group_ratios str_lower id2label pred_seg =
     \<lparr>bike_lane_ratio = ratio_of (group_count pred_seg (BIKE_LANE_IDS str_lower id2label)) (size_of pred_seg),
      water_ratio = ratio_of (group_count pred_seg (WATER_IDS str_lower id2label)) (size_of pred_seg),
      nature_ratio = ratio_of (group_count pred_seg (NATURE_IDS str_lower id2label)) (size_of pred_seg),
      road_ratio = ratio_of (group_count pred_seg (ROAD_IDS str_lower id2label)) (size_of pred_seg),
      ugly_ratio = ratio_of (group_count pred_seg (UGLY_IDS str_lower id2label)) (size_of pred_seg)\<rparr>"

text \<open>
  The Context Classifier: the rule table, first match wins. The result is the status, the
  bonus, the penalty and the ugly discount.
\<close>

definition spec_classify :: "ratios \<Rightarrow> status \<times> real \<times> real \<times> real" where
  "spec_classify r =
     (if water_ratio r > fl (1/10) then (Waterfront, fl (3/10), 0, 1/2)
      else if bike_lane_ratio r > fl (5/100) then (DedicatedBikeLane, fl (2/10), 0, 1)
      else if nature_ratio r > fl (4/10) then (GreenTunnel, fl (1/10), 0, 1)
      else if road_ratio r > fl (4/10) then (CityStreetNoBikeLane, 0, fl (2/10), 1)
      else (MixedUrban, 0, 0, 1))"

definition clamp :: "real \<Rightarrow> real \<Rightarrow> real \<Rightarrow> real" where
  "clamp x lo hi = max lo (min hi x)"

text \<open>The Score Synthesizer: the terms are added in the order the specification lists them.\<close>

definition spec_synthesize :: "ratios \<Rightarrow> real \<Rightarrow> real \<Rightarrow> real \<Rightarrow> real" where
  "spec_synthesize r bonus penalty ugly_discount =
     (let effective_ugly_ratio = fl (ugly_ratio r * ugly_discount);
          score = fl (1/2 + fl (nature_ratio r * (1/2)));
          score = fl (score + fl (water_ratio r * (3/2)));
          score = fl (score + fl (bike_lane_ratio r * 2));
          score = fl (score - fl (effective_ugly_ratio * (1/2)));
          score = fl (score + bonus);
          score = fl (score - penalty)
      in clamp score 0 1)"

definition spec_score :: "ratios \<Rightarrow> real" where
  "spec_score r = (case spec_classify r of (status, bonus, penalty, ugly_discount) \<Rightarrow>
     spec_synthesize r bonus penalty ugly_discount)"

definition spec_status :: "ratios \<Rightarrow> status" where
  "spec_status r = fst (spec_classify r)"

text \<open>The share of one class-id in the label map, as the debug breakdown computes it.\<close>

definition class_ratio :: "label_map \<Rightarrow> int \<Rightarrow> fp" where
  "class_ratio pred_seg class_id =
     fp_div (rnd (of_int (np_sum_eq pred_seg class_id))) (rnd (of_nat (size_of pred_seg)))"

section \<open>Example inputs\<close>

text \<open>A vocabulary whose single class belongs to the water group and to the bike lane group.\<close>

definition vocab_overlap :: vocabulary where
  "vocab_overlap = [(0, lit ''Water Bike Lane'')]"

text \<open>A vocabulary with one class in each of the five groups.\<close>

definition vocab_city :: vocabulary where
  "vocab_city =
     [(0, lit ''Water''), (1, lit ''Bike Lane''), (2, lit ''Building''), (3, lit ''Road''),
      (4, lit ''Vegetation'')]"

text \<open>
  Label maps of one row over \<open>vocab_city\<close>; class-id \<open>9\<close> is in no group. \<open>scene_b\<close> is
  scenario B of the specification: 10,000 pixels, 1,200 of them water and 2,000 ugly.
\<close>

definition scene_b :: label_map where
  "scene_b = [replicate 1200 0 @ replicate 2000 2 @ replicate 6800 9]"

definition scene_water_bike :: label_map where
  "scene_water_bike = [replicate 15 0 @ replicate 6 1 @ replicate 79 9]"

definition scene_water_5 :: label_map where
  "scene_water_5 = [replicate 5 0 @ replicate 95 9]"

definition scene_water_15 :: label_map where
  "scene_water_15 = [replicate 15 0 @ replicate 85 9]"

definition scene_road_10 :: label_map where
  "scene_road_10 = [replicate 10 3 @ replicate 90 9]"

definition scene_road_30 :: label_map where
  "scene_road_30 = [replicate 30 3 @ replicate 70 9]"

section \<open>Properties of the rounding\<close>

lemma round_even_cases:
  "round_even y = \<lfloor>y\<rfloor> \<or> round_even y = \<lfloor>y\<rfloor> + 1"
  by (auto simp: round_even_def Let_def)

lemma round_even_lower: "y - 1/2 \<le> of_int (round_even y)"
  unfolding round_even_def Let_def by (auto; linarith)

lemma round_even_upper: "of_int (round_even y) \<le> y + 1/2"
  unfolding round_even_def Let_def by (auto; linarith)

lemma round_even_of_int [simp]: "round_even (of_int n) = n"
  by (simp add: round_even_def)

lemma round_even_mono: assumes "x \<le> y" shows "round_even x \<le> round_even y"
proof (cases "\<lfloor>x\<rfloor> = \<lfloor>y\<rfloor>")
  case True
  with assms show ?thesis by (auto simp: round_even_def Let_def)
next
  case False
  with assms have "\<lfloor>x\<rfloor> + 1 \<le> \<lfloor>y\<rfloor>" using floor_mono[OF assms] by linarith
  moreover have "round_even x \<le> \<lfloor>x\<rfloor> + 1" using round_even_cases[of x] by linarith
  moreover have "\<lfloor>y\<rfloor> \<le> round_even y" using round_even_cases[of y] by linarith
  ultimately show ?thesis by linarith
qed

lemma round_even_ge_int: "of_int n \<le> y \<Longrightarrow> n \<le> round_even y"
  using round_even_mono[of "of_int n" y] by simp

lemma round_even_le_int: "y \<le> of_int n \<Longrightarrow> round_even y \<le> n"
  using round_even_mono[of y "of_int n"] by simp

lemma ilog2_bounds:
  assumes "0 < x"
  shows "2 powr of_int (ilog2 x) \<le> x" "x < 2 powr (of_int (ilog2 x) + 1)"
proof -
  have a: "of_int (ilog2 x) \<le> log 2 x" "log 2 x < of_int (ilog2 x) + 1"
    unfolding ilog2_def by linarith+
  show "2 powr of_int (ilog2 x) \<le> x"
    using le_log_iff[of 2 x "of_int (ilog2 x)"] assms a by simp
  show "x < 2 powr (of_int (ilog2 x) + 1)"
    using log_less_iff[of 2 x "of_int (ilog2 x) + 1"] assms a by simp
qed

lemma ilog2_eqI:
  assumes "2 powr of_int e \<le> x" "x < 2 powr (of_int e + 1)"
  shows "ilog2 x = e"
proof -
  have x: "0 < x" using assms(1) by (smt (verit) powr_gt_zero)
  have "of_int e \<le> log 2 x" using le_log_iff[of 2 x "of_int e"] assms(1) x by simp
  moreover have "log 2 x < of_int e + 1"
    using log_less_iff[of 2 x "of_int e + 1"] assms(2) x by simp
  ultimately show ?thesis unfolding ilog2_def by linarith
qed

lemma ilog2_mono: assumes "0 < x" "x \<le> y" shows "ilog2 x \<le> ilog2 y"
proof -
  have "log 2 x \<le> log 2 y" using assms by simp
  then show ?thesis unfolding ilog2_def by (rule floor_mono)
qed

lemma expo_mono: assumes "0 < x" "x \<le> y" shows "expo x \<le> expo y"
  using ilog2_mono[OF assms] by (simp add: expo_def)

lemma scaled_upper: assumes "0 < x" shows "x / 2 powr of_int (expo x) < 2 ^ 53"
proof -
  have "x < 2 powr (of_int (ilog2 x) + 1)" using ilog2_bounds[OF assms] by simp
  also have "\<dots> \<le> 2 powr (of_int (expo x) + 53)"
    by (rule powr_mono) (auto simp: expo_def)
  also have "\<dots> = 2 powr of_int (expo x) * 2 ^ 53"
    by (simp add: powr_add)
  finally show ?thesis by (simp add: field_simps)
qed

lemma scaled_lower:
  assumes "0 < x" "- 1022 \<le> ilog2 x"
  shows "2 ^ 52 \<le> x / 2 powr of_int (expo x)"
proof -
  have e: "expo x = ilog2 x - 52" using assms by (simp add: expo_def)
  have "(2::real) powr of_int (expo x) * 2 ^ 52 = 2 powr (of_int (expo x) + 52)"
    by (simp add: powr_add)
  also have "\<dots> = 2 powr of_int (ilog2 x)" by (simp add: e)
  also have "\<dots> \<le> x" using ilog2_bounds[OF assms(1)] by simp
  finally show ?thesis by (simp add: field_simps)
qed
lemma fl_pos_upper: assumes "0 < x" shows "fl_pos x \<le> 2 powr (of_int (expo x) + 53)"
proof -
  have "round_even (x / 2 powr of_int (expo x)) \<le> 2 ^ 53"
    by (rule round_even_le_int) (use scaled_upper[OF assms] in simp)
  then have "real_of_int (round_even (x / 2 powr of_int (expo x))) \<le> 2 ^ 53"
    by (metis of_int_le_iff of_int_numeral of_int_power)
  then show ?thesis
    by (simp add: fl_pos_def powr_add mult.commute)
qed

lemma fl_pos_lower:
  assumes "0 < x" "- 1022 \<le> ilog2 x"
  shows "2 powr (of_int (expo x) + 52) \<le> fl_pos x"
proof -
  have "2 ^ 52 \<le> round_even (x / 2 powr of_int (expo x))"
    by (rule round_even_ge_int) (use scaled_lower[OF assms] in simp)
  then have "2 ^ 52 \<le> real_of_int (round_even (x / 2 powr of_int (expo x)))"
    by (metis of_int_le_iff of_int_numeral of_int_power)
  then show ?thesis
    by (simp add: fl_pos_def powr_add mult.commute)
qed

lemma fl_pos_nonneg: assumes "0 < x" shows "0 \<le> fl_pos x"
proof -
  have "0 \<le> round_even (x / 2 powr of_int (expo x))"
    by (rule round_even_ge_int) (use assms in simp)
  then show ?thesis by (simp add: fl_pos_def)
qed

lemma fl_pos_mono: assumes "0 < x" "x \<le> y" shows "fl_pos x \<le> fl_pos y"
proof (cases "expo x = expo y")
  case True
  have "x / 2 powr of_int (expo y) \<le> y / 2 powr of_int (expo y)"
    using assms by (simp add: divide_right_mono)
  then have "round_even (x / 2 powr of_int (expo y)) \<le> round_even (y / 2 powr of_int (expo y))"
    by (rule round_even_mono)
  then show ?thesis
    by (simp add: fl_pos_def True mult_right_mono)
next
  case False
  have y: "0 < y" using assms by simp
  from False have lt: "expo x + 1 \<le> expo y" using expo_mono[OF assms] by simp
  then have "- 1022 \<le> ilog2 y" by (auto simp: expo_def split: if_splits)
  then have "2 powr (of_int (expo y) + 52) \<le> fl_pos y" by (rule fl_pos_lower[OF y])
  moreover have "fl_pos x \<le> 2 powr (of_int (expo x) + 53)" by (rule fl_pos_upper[OF assms(1)])
  moreover have "2 powr (of_int (expo x) + 53) \<le> (2::real) powr (of_int (expo y) + 52)"
    by (rule powr_mono) (use lt in auto)
  ultimately show ?thesis by linarith
qed

lemma fl_mono: assumes "x \<le> y" shows "fl x \<le> fl y"
proof -
  consider "0 < x" | "x = 0" | "x < 0" "y < 0" | "x < 0" "0 \<le> y" by linarith
  then show ?thesis
  proof cases
    case 1
    then show ?thesis using assms fl_pos_mono[of x y] by (simp add: fl_def)
  next
    case 2
    then show ?thesis using assms fl_pos_nonneg[of y] by (auto simp: fl_def)
  next
    case 3
    then show ?thesis using assms fl_pos_mono[of "- y" "- x"] by (simp add: fl_def)
  next
    case 4
    then show ?thesis using fl_pos_nonneg[of "- x"] fl_pos_nonneg[of y] by (auto simp: fl_def)
  qed
qed

lemma ilog2_less: assumes "0 < x" "x < 2 powr of_int j" shows "ilog2 x < j"
proof -
  have "2 powr of_int (ilog2 x) < (2::real) powr of_int j"
    using ilog2_bounds(1)[OF assms(1)] assms(2) by linarith
  then show ?thesis by simp
qed

lemma of_int_less_pow2: "m < 2 ^ n \<Longrightarrow> real_of_int m < 2 ^ n"
  by (metis of_int_less_iff of_int_numeral of_int_power)

lemma fl_pos_exact:
  assumes m: "0 < m" "m < 2 ^ 53" and k: "- 1074 \<le> k"
  shows "fl_pos (of_int m * 2 powr of_int k) = of_int m * 2 powr of_int k"
proof -
  define x where "x = real_of_int m * 2 powr of_int k"
  define e where "e = expo x"
  have x: "0 < x" using m by (simp add: x_def)
  have "real_of_int m < 2 ^ 53" using m(2) by (rule of_int_less_pow2)
  then have "x < 2 ^ 53 * 2 powr of_int k" by (simp add: x_def)
  also have "\<dots> = 2 powr of_int (k + 53)" by (simp add: powr_add)
  finally have "ilog2 x < k + 53" by (rule ilog2_less[OF x])
  then have e: "e \<le> k" using k by (simp add: expo_def e_def)
  define d where "d = nat (k - e)"
  have "real_of_int k = of_int e + real d"
    using e by (simp add: d_def)
  then have "(2::real) powr of_int k = 2 powr (of_int e + real d)"
    by (simp only:)
  also have "\<dots> = 2 powr of_int e * 2 ^ d"
    by (simp only: powr_add powr_realpow[of 2 d, simplified])
  finally have pk: "(2::real) powr of_int k = 2 powr of_int e * 2 ^ d" .
  have xe: "x = of_int (m * 2 ^ d) * 2 powr of_int e"
    unfolding x_def pk by simp
  have "x / 2 powr of_int e = of_int (m * 2 ^ d)"
    unfolding xe by simp
  then have "round_even (x / 2 powr of_int e) = m * 2 ^ d"
    by (simp only: round_even_of_int)
  then have "fl_pos x = of_int (m * 2 ^ d) * 2 powr of_int e"
    by (simp only: fl_pos_def e_def)
  also have "\<dots> = x" by (simp only: xe)
  finally show ?thesis by (simp only: x_def)
qed

lemma fl_exact:
  assumes "\<bar>m\<bar> < 2 ^ 53" "- 1074 \<le> k"
  shows "fl (of_int m * 2 powr of_int k) = of_int m * 2 powr of_int k"
proof -
  consider "m = 0" | "0 < m" | "m < 0" by linarith
  then show ?thesis
  proof cases
    case 1
    then show ?thesis by (simp add: fl_def)
  next
    case 2
    then show ?thesis using assms fl_pos_exact[of m k] by (simp add: fl_def)
  next
    case 3
    then have neg: "of_int m * (2::real) powr of_int k < 0"
      by (simp add: mult_neg_pos)
    have "fl_pos (of_int (- m) * 2 powr of_int k) = of_int (- m) * 2 powr of_int k"
      using 3 assms by (intro fl_pos_exact) auto
    then show ?thesis using neg by (simp add: fl_def)
  qed
qed

lemma fl_of_int: assumes "\<bar>m\<bar> < 2 ^ 53" shows "fl (of_int m) = of_int m"
  using fl_exact[OF assms, of 0] by simp

lemma fl_of_nat: assumes "n < 2 ^ 53" shows "fl (of_nat n) = of_nat n"
proof -
  have "\<bar>int n\<bar> < 2 ^ 53" using assms by (metis abs_of_nat of_nat_less_iff of_nat_numeral of_nat_power)
  then show ?thesis using fl_of_int[of "int n"] by simp
qed

lemma fl_0 [simp]: "fl 0 = 0"
  by (simp add: fl_def)

lemma fl_1 [simp]: "fl 1 = 1"
  using fl_of_int[of 1] by simp

lemma fl_minus: "fl (- x) = - fl x"
  by (simp add: fl_def)

lemma fl_nonneg: "0 \<le> x \<Longrightarrow> 0 \<le> fl x"
  using fl_mono[of 0 x] by simp

lemma fl_dyadic:
  assumes "\<bar>m\<bar> < 2 ^ 53" "j \<le> 1074"
  shows "fl (of_int m / 2 ^ j) = of_int m / 2 ^ j"
proof -
  have "(2::real) powr of_int (- int j) = 1 / 2 ^ j"
    by (simp add: powr_minus powr_realpow inverse_eq_divide)
  then show ?thesis using fl_exact[OF assms(1), of "- int j"] assms(2) by simp
qed

lemma fl_pow2: assumes "- 1022 \<le> k" shows "fl (2 powr of_int k) = 2 powr of_int k"
  using fl_exact[of 1 k] assms by simp

lemma round_even_scaled_bounds:
  assumes "0 < x"
  shows "0 \<le> round_even (x / 2 powr of_int (expo x))"
    "round_even (x / 2 powr of_int (expo x)) \<le> 2 ^ 53"
proof -
  show "0 \<le> round_even (x / 2 powr of_int (expo x))"
    by (rule round_even_ge_int) (use assms in simp)
  show "round_even (x / 2 powr of_int (expo x)) \<le> 2 ^ 53"
    by (rule round_even_le_int) (use scaled_upper[OF assms] in simp)
qed

lemma expo_ge: "- 1074 \<le> expo x"
  by (simp add: expo_def)

lemma fl_pos_idem: assumes "0 < x" shows "fl (fl_pos x) = fl_pos x"
proof -
  define M where "M = round_even (x / 2 powr of_int (expo x))"
  have M: "0 \<le> M" "M \<le> 2 ^ 53"
    using round_even_scaled_bounds[OF assms] by (simp_all add: M_def)
  have eq: "fl_pos x = of_int M * 2 powr of_int (expo x)" by (simp add: fl_pos_def M_def)
  show ?thesis
  proof (cases "M = 2 ^ 53")
    case True
    have "fl_pos x = of_int (2 ^ 52) * 2 powr of_int (expo x + 1)"
      by (simp add: eq True powr_add)
    moreover have "fl (of_int (2 ^ 52) * 2 powr of_int (expo x + 1))
        = of_int (2 ^ 52) * 2 powr of_int (expo x + 1)"
      by (rule fl_exact) (use expo_ge[of x] in auto)
    ultimately show ?thesis by simp
  next
    case False
    with M have "\<bar>M\<bar> < 2 ^ 53" by simp
    then show ?thesis unfolding eq by (rule fl_exact) (rule expo_ge)
  qed
qed

lemma fl_idem [simp]: "fl (fl x) = fl x"
proof -
  consider "x = 0" | "0 < x" | "x < 0" by linarith
  then show ?thesis
  proof cases
    case 1
    then show ?thesis by simp
  next
    case 2
    then show ?thesis using fl_pos_idem[of x] by (simp add: fl_def)
  next
    case 3
    then have "fl x = - fl_pos (- x)" by (simp add: fl_def)
    then show ?thesis using fl_pos_idem[of "- x"] 3 by (simp add: fl_minus)
  qed
qed

lemma powr_int_pred: "(2::real) powr of_int (e - 1) = 2 powr of_int e / 2"
proof -
  have "(2::real) powr of_int (e - 1) = 2 powr (of_int e - 1)" by simp
  also have "\<dots> = 2 powr of_int e / 2 powr 1" by (rule powr_diff)
  finally show ?thesis by simp
qed

lemma powr_int_succ: "(2::real) powr (of_int e + 1) = 2 powr of_int e * 2"
proof -
  have "(2::real) powr (of_int e + 1) = 2 powr of_int e * 2 powr 1" by (rule powr_add)
  then show ?thesis by simp
qed

lemma ilog2_ge: assumes "2 powr of_int j \<le> x" shows "j \<le> ilog2 x"
proof -
  have x: "0 < x" using assms powr_gt_zero[of 2 "of_int j"] by linarith
  have "2 powr of_int j < (2::real) powr (of_int (ilog2 x) + 1)"
    using ilog2_bounds(2)[OF x] assms by linarith
  then have "real_of_int j < of_int (ilog2 x) + 1" by simp
  then show ?thesis by linarith
qed

lemma fl_pos_half:
  assumes "2 powr (- 1021) \<le> x"
  shows "fl_pos (x / 2) = fl_pos x / 2"
proof -
  have "(2::real) powr of_int (- 1021) \<le> x" using assms by simp
  then have big: "- 1021 \<le> ilog2 x" by (rule ilog2_ge)
  have x: "0 < x" using assms powr_gt_zero[of 2 "- 1021"] by linarith
  define l where "l = ilog2 x"
  have b: "2 powr of_int l \<le> x" "x < 2 powr of_int l * 2"
    using ilog2_bounds[OF x] by (simp_all only: l_def powr_int_succ)
  have "ilog2 (x / 2) = l - 1"
  proof (rule ilog2_eqI)
    show "2 powr real_of_int (l - 1) \<le> x / 2"
      unfolding powr_int_pred using b(1) by linarith
    have "(2::real) powr (real_of_int (l - 1) + 1) = 2 powr of_int l" by simp
    then show "x / 2 < 2 powr (real_of_int (l - 1) + 1)"
      using b(2) by linarith
  qed
  then have e: "expo (x / 2) = expo x - 1" using big by (simp add: expo_def l_def)
  define E where "E = expo x"
  have "fl_pos (x / 2) =
      of_int (round_even (x / 2 / (2 powr of_int E / 2))) * (2 powr of_int E / 2)"
    by (simp only: fl_pos_def e powr_int_pred E_def)
  also have "x / 2 / (2 powr of_int E / 2) = x / 2 powr of_int E" by simp
  also have "of_int (round_even (x / 2 powr of_int E)) * (2 powr of_int E / 2) = fl_pos x / 2"
    by (simp only: fl_pos_def E_def times_divide_eq_right)
  finally show ?thesis .
qed

lemma fl_half:
  assumes "x = 0 \<or> 2 powr (- 1021) \<le> \<bar>x\<bar>"
  shows "fl (x / 2) = fl x / 2"
proof -
  consider "x = 0" | "0 < x" | "x < 0" by linarith
  then show ?thesis
  proof cases
    case 1
    then show ?thesis by simp
  next
    case 2
    then show ?thesis using assms fl_pos_half[of x] by (simp add: fl_def)
  next
    case 3
    then show ?thesis using assms fl_pos_half[of "- x"] by (simp add: fl_def)
  qed
qed

lemma fl_pos_scaled:
  assumes "2 powr of_int (k + 52) \<le> x" "x < 2 powr of_int (k + 53)" "- 1074 \<le> k"
  shows "fl_pos x = of_int (round_even (x / 2 powr of_int k)) * 2 powr of_int k"
proof -
  have "x < 2 powr (of_int (k + 52) + 1)" using assms(2) by (simp add: add.commute)
  then have "ilog2 x = k + 52" by (rule ilog2_eqI[OF assms(1)])
  then have "expo x = k" using assms(3) by (simp add: expo_def)
  then show ?thesis by (simp only: fl_pos_def)
qed

lemma powr_neg_nat: "(2::real) powr of_int (- int j) = 1 / 2 ^ j"
  by (simp add: powr_minus powr_realpow inverse_eq_divide)

lemma powr_int_nat: "(2::real) powr of_int (int n) = 2 ^ n"
  by (simp add: powr_realpow)

lemma fl_eq_div:
  assumes "2 ^ 52 \<le> x * 2 ^ j" "x * 2 ^ j < 2 ^ 53" "j \<le> 1074"
  shows "fl x = of_int (round_even (x * 2 ^ j)) / 2 ^ j"
proof -
  have "(0::real) < 2 ^ 52" by simp
  then have "0 < x * 2 ^ j" using assms(1) by linarith
  then have x: "0 < x" by (simp add: zero_less_mult_iff)
  have p: "(2::real) powr of_int (- int j + 52) = 2 ^ 52 / 2 ^ j"
    "(2::real) powr of_int (- int j + 53) = 2 ^ 53 / 2 ^ j"
  proof -
    have "(2::real) powr of_int (- int j + 52) = 2 powr (52 - real j)" by simp
    also have "\<dots> = 2 powr 52 / 2 powr real j" by (rule powr_diff)
    finally show "(2::real) powr of_int (- int j + 52) = 2 ^ 52 / 2 ^ j"
      by (simp add: powr_realpow)
    have "(2::real) powr of_int (- int j + 53) = 2 powr (53 - real j)" by simp
    also have "\<dots> = 2 powr 53 / 2 powr real j" by (rule powr_diff)
    finally show "(2::real) powr of_int (- int j + 53) = 2 ^ 53 / 2 ^ j"
      by (simp add: powr_realpow)
  qed
  have "fl_pos x = of_int (round_even (x / 2 powr of_int (- int j))) * 2 powr of_int (- int j)"
  proof (rule fl_pos_scaled)
    show "2 powr real_of_int (- int j + 52) \<le> x"
      unfolding p using assms(1) by (simp add: field_simps)
    show "x < 2 powr real_of_int (- int j + 53)"
      unfolding p using assms(2) by (simp add: field_simps)
    show "- 1074 \<le> - int j" using assms(3) by simp
  qed
  then have "fl_pos x = of_int (round_even (x / (1 / 2 ^ j))) * (1 / 2 ^ j)"
    by (simp only: powr_neg_nat)
  then show ?thesis using x by (simp add: fl_def)
qed

lemma rnd_Fin: assumes "\<bar>x\<bar> \<le> 2 ^ 1023" shows "rnd x = Fin (fl x)"
proof -
  define B :: real where "B = 2 ^ 1023"
  define C :: real where "C = 2 ^ 1024"
  have "fl (2 powr of_int (int 1023)) = 2 powr of_int (int 1023)"
    by (rule fl_pow2) simp
  then have e: "fl B = B" by (simp only: powr_int_nat B_def)
  have BC: "B < C" "0 < B" unfolding B_def C_def by (simp_all del: power_numeral)
  have "\<bar>x\<bar> \<le> B" using assms by (simp only: B_def)
  then have "fl x \<le> fl B" "fl (- B) \<le> fl x"
    by (auto intro!: fl_mono)
  then have "fl x \<le> B" "- B \<le> fl x"
    by (simp_all only: e fl_minus)
  then have "\<not> C \<le> fl x" "\<not> fl x \<le> - C" using BC by linarith+
  moreover have "rnd x = (if C \<le> fl x then PInf else if fl x \<le> - C then NInf else Fin (fl x))"
    by (simp only: rnd_def Let_def C_def)
  ultimately show ?thesis by simp
qed


section \<open>The taxonomy builder\<close>

lemma key_loop_set:
  "set (key_loop str_lower i label keys acc) =
     set acc \<union> {j. j = i \<and> (\<exists>key \<in> set keys. str_in (str_lower key) (str_lower label))}"
  by (induction keys arbitrary: acc) auto

lemma item_loop_set:
  "set (item_loop str_lower items keys acc) =
     set acc \<union> {i. \<exists>label key. (i, label) \<in> set items \<and> key \<in> set keys \<and>
                    str_in (str_lower key) (str_lower label)}"
proof (induction items arbitrary: acc)
  case Nil
  then show ?case by simp
next
  case (Cons item items)
  obtain i label where item: "item = (i, label)" by (cases item)
  show ?case
    unfolding item by (simp add: Cons.IH key_loop_set) blast
qed

lemma get_id_by_name_set:
  "get_id_by_name str_lower vocab keyword_list =
     {i. \<exists>name key. (i, name) \<in> set vocab \<and> key \<in> set keyword_list \<and>
          str_in (str_lower key) (str_lower name)}"
  by (simp add: get_id_by_name_def item_loop_set)

lemma letter_pairs_iff: "(a, b) \<in> set letter_pairs \<longleftrightarrow> is_upper a \<and> b = a + 32"
proof
  assume "(a, b) \<in> set letter_pairs"
  then show "is_upper a \<and> b = a + 32"
    by (auto simp: letter_pairs_def lit_def is_upper_def)
next
  assume u: "is_upper a \<and> b = a + 32"
  then have "a \<in> set [65..<91]" by (simp add: is_upper_def del: upt_rec_numeral)
  then have "(a, a + 32) \<in> set letter_pairs"
    by (simp add: letter_pairs_def lit_def)
  then show "(a, b) \<in> set letter_pairs" using u by simp
qed

lemma lower_ascii_char_iff:
  "(if is_upper a then a + 32 else a) = (if is_upper b then b + 32 else b) \<longleftrightarrow> ci_eq a b"
  by (auto simp: ci_eq_def letter_pairs_iff is_upper_def)

lemma list_all2_ci_eq: "list_all2 ci_eq key seg \<longleftrightarrow> lower_ascii key = lower_ascii seg"
proof (induction key arbitrary: seg)
  case Nil
  then show ?case by (simp add: lower_ascii_def)
next
  case (Cons c key)
  show ?case
  proof (cases seg)
    case Nil
    then show ?thesis by (simp add: lower_ascii_def)
  next
    case (Cons d seg')
    have "list_all2 ci_eq (c # key) (d # seg') \<longleftrightarrow> ci_eq c d \<and> lower_ascii key = lower_ascii seg'"
      by (simp add: Cons.IH)
    also have "\<dots> \<longleftrightarrow> lower_ascii (c # key) = lower_ascii (d # seg')"
      using lower_ascii_char_iff[of c d] by (simp add: lower_ascii_def)
    finally show ?thesis by (simp only: Cons)
  qed
qed

lemma str_in_lower_iff: "str_in (lower_ascii key) (lower_ascii name) \<longleftrightarrow> ci_substring key name"
proof
  define f :: "nat \<Rightarrow> nat" where "f = (\<lambda>c. if is_upper c then c + 32 else c)"
  have la: "\<And>s. lower_ascii s = map f s" by (simp add: lower_ascii_def f_def)
  assume "str_in (lower_ascii key) (lower_ascii name)"
  then obtain ps ss where "map f name = ps @ map f key @ ss"
    by (auto simp: str_in_def sublist_def la)
  then obtain us vs where "name = us @ vs" "map f key @ ss = map f vs"
    by (auto simp: map_eq_append_conv)
  then obtain seg ws where "name = us @ seg @ ws" "map f seg = map f key"
    by (auto simp: append_eq_map_conv)
  then show "ci_substring key name"
    unfolding ci_substring_def list_all2_ci_eq la by metis
next
  assume "ci_substring key name"
  then obtain ps seg ss where "name = ps @ seg @ ss" "lower_ascii key = lower_ascii seg"
    by (auto simp: ci_substring_def list_all2_ci_eq)
  then show "str_in (lower_ascii key) (lower_ascii name)"
    by (simp add: str_in_def lower_ascii_def)
qed

lemma get_id_by_name_ascii:
  assumes lo: "lower_on_ascii str_lower"
    and names: "list_all (\<lambda>(i, name). is_ascii name) vocab"
    and keys: "list_all is_ascii keyword_list"
  shows "get_id_by_name str_lower vocab keyword_list = spec_build_group vocab (set keyword_list)"
proof -
  have n: "\<And>i name. (i, name) \<in> set vocab \<Longrightarrow> str_lower name = lower_ascii name"
    using lo names by (auto simp: lower_on_ascii_def list_all_iff)
  have k: "\<And>key. key \<in> set keyword_list \<Longrightarrow> str_lower key = lower_ascii key"
    using lo keys by (auto simp: lower_on_ascii_def list_all_iff)
  have eq: "\<And>i name key. (i, name) \<in> set vocab \<Longrightarrow> key \<in> set keyword_list \<Longrightarrow>
      str_in (str_lower key) (str_lower name) = ci_substring key name"
    by (simp add: n k str_in_lower_iff)
  show ?thesis
    unfolding get_id_by_name_set spec_build_group_def
    using eq by blast
qed

lemma lower_from_ascii: "is_ascii s \<Longrightarrow> lower_from p s = lower_ascii s"
  by (induction s arbitrary: p)
     (auto simp: is_ascii_def lower_ascii_def lower_cp_def is_greek_capital_def)

lemma lower_greek_ascii: "is_ascii s \<Longrightarrow> lower_greek s = lower_ascii s"
  by (simp add: lower_greek_def lower_from_ascii)

lemma lower_greek_on_ascii: "lower_on_ascii lower_greek"
  by (simp add: lower_on_ascii_def lower_greek_ascii)

lemmas str_eval = get_id_by_name_def str_in_def lit_def lower_greek_ascii is_ascii_def
  lower_ascii_def is_upper_def sublist_code

lemmas greek_eval = get_id_by_name_def str_in_def lower_greek_def is_cased_def lower_cp_def
  is_greek_capital_def is_upper_def sublist_code

text \<open>
  C6 (as the code has it). For every vocabulary and every keyword list, \<open>get_id_by_name\<close>
  returns exactly the set of class-ids for which the lower-cased name contains the
  lower-cased form of at least one keyword, both by \<open>str.lower\<close>. When the names and the
  keywords are ASCII strings, that is exactly the set of class-ids whose name contains at
  least one of the keywords as a case-insensitive substring. The function is total: when
  nothing matches, the set is empty.
\<close>

theorem get_id_by_name_spec:
  "get_id_by_name str_lower vocab keyword_list =
     {i. \<exists>name key. (i, name) \<in> set vocab \<and> key \<in> set keyword_list \<and>
          str_in (str_lower key) (str_lower name)}
   \<and> (lower_on_ascii str_lower \<and> list_all (\<lambda>(i, name). is_ascii name) vocab
        \<and> list_all is_ascii keyword_list
      \<longrightarrow> get_id_by_name str_lower vocab keyword_list
          = spec_build_group vocab (set keyword_list))"
  using get_id_by_name_set get_id_by_name_ascii by blast

text \<open>
  On \<open>vocab_city\<close> the match ignores the case of letters, several keywords add up, and a
  keyword no name contains gives the empty set.
\<close>

theorem get_id_by_name_spec_witness:
  "lower_on_ascii lower_greek
   \<and> list_all (\<lambda>(i, name). is_ascii name) vocab_city
   \<and> list_all is_ascii [lit ''bike LANE'', lit ''Road'']
   \<and> get_id_by_name lower_greek vocab_city [lit ''water''] = {0}
   \<and> get_id_by_name lower_greek vocab_city [lit ''bike LANE'', lit ''Road''] = {1, 3}
   \<and> get_id_by_name lower_greek vocab_city [lit ''lake''] = {}
   \<and> spec_build_group vocab_city (set [lit ''water'']) = {0}
   \<and> spec_build_group vocab_city (set [lit ''bike LANE'', lit ''Road'']) = {1, 3}
   \<and> spec_build_group vocab_city (set [lit ''lake'']) = {}"
proof -
  have a: "list_all (\<lambda>(i, name). is_ascii name) vocab_city"
    "list_all is_ascii [lit ''water'']" "list_all is_ascii [lit ''bike LANE'', lit ''Road'']"
    "list_all is_ascii [lit ''lake'']"
    by (simp_all add: vocab_city_def is_ascii_def lit_def)
  have e: "get_id_by_name lower_greek vocab_city [lit ''water''] = {0}"
    "get_id_by_name lower_greek vocab_city [lit ''bike LANE'', lit ''Road''] = {1, 3}"
    "get_id_by_name lower_greek vocab_city [lit ''lake''] = {}"
    by (auto simp add: vocab_city_def str_eval)
  have w: "\<And>keys. list_all is_ascii keys \<Longrightarrow>
      spec_build_group vocab_city (set keys) = get_id_by_name lower_greek vocab_city keys"
  proof -
    fix keys :: "pystr list"
    assume k: "list_all is_ascii keys"
    from get_id_by_name_spec[of lower_greek vocab_city keys]
    have "lower_on_ascii lower_greek \<and> list_all (\<lambda>(i, name). is_ascii name) vocab_city
        \<and> list_all is_ascii keys
      \<longrightarrow> get_id_by_name lower_greek vocab_city keys = spec_build_group vocab_city (set keys)"
      by (rule conjunct2)
    then have "get_id_by_name lower_greek vocab_city keys = spec_build_group vocab_city (set keys)"
      using lower_greek_on_ascii a(1) k by blast
    then show "spec_build_group vocab_city (set keys) = get_id_by_name lower_greek vocab_city keys"
      by (rule sym)
  qed
  have "spec_build_group vocab_city (set [lit ''water'']) = {0}"
    by (simp only: w[OF a(2)] e(1))
  moreover have "spec_build_group vocab_city (set [lit ''bike LANE'', lit ''Road'']) = {1, 3}"
    by (simp only: w[OF a(3)] e(2))
  moreover have "spec_build_group vocab_city (set [lit ''lake'']) = {}"
    by (simp only: w[OF a(4)] e(3))
  ultimately show ?thesis
    using lower_greek_on_ascii a(1,3) e by blast
qed

text \<open>
  The claim fails beyond ASCII. The keyword \<open>[927, 916, 927, 931]\<close> (the Greek capitals
  omicron, delta, omicron, sigma) is a verbatim prefix of the name
  \<open>[927, 916, 927, 931, 913]\<close> (the same, then alpha), so it occurs in it as a
  case-insensitive substring. \<open>str.lower\<close> ends the keyword with the final sigma 962 and
  puts the small sigma 963 into the name, so the lower-cased keyword does not occur in the
  lower-cased name and \<open>get_id_by_name\<close> returns no class-id.
\<close>

theorem get_id_by_name_spec_counterexample:
  "lower_greek [927, 916, 927, 931] = [959, 948, 959, 962]
   \<and> lower_greek [927, 916, 927, 931, 913] = [959, 948, 959, 963, 945]
   \<and> ci_substring [927, 916, 927, 931] [927, 916, 927, 931, 913]
   \<and> spec_build_group [(0, [927, 916, 927, 931, 913])] (set [[927, 916, 927, 931]]) = {0}
   \<and> get_id_by_name lower_greek [(0, [927, 916, 927, 931, 913])] [[927, 916, 927, 931]] = {}"
proof -
  have l: "lower_greek [927, 916, 927, 931] = [959, 948, 959, 962]"
    "lower_greek [927, 916, 927, 931, 913] = [959, 948, 959, 963, 945]"
    by (simp_all add: greek_eval)
  have "list_all2 ci_eq [927, 916, 927, 931] [927, 916, 927, 931]"
    by (simp add: ci_eq_def)
  then have c: "ci_substring [927, 916, 927, 931] [927, 916, 927, 931, 913]"
    unfolding ci_substring_def
    by (intro exI[of _ "[]"] exI[of _ "[927, 916, 927, 931]"] exI[of _ "[913]"]) simp
  then have s: "spec_build_group [(0, [927, 916, 927, 931, 913])] (set [[927, 916, 927, 931]]) = {0}"
    by (auto simp: spec_build_group_def)
  have g: "get_id_by_name lower_greek [(0, [927, 916, 927, 931, 913])] [[927, 916, 927, 931]] = {}"
    by (simp add: get_id_by_name_def str_in_def l sublist_code)
  show ?thesis by (intro conjI l c s g)
qed

section \<open>Evaluating the program on concrete inputs\<close>

lemma rnd_small: "\<bar>x\<bar> \<le> 1024 \<Longrightarrow> rnd x = Fin (fl x)"
proof (rule rnd_Fin)
  assume "\<bar>x\<bar> \<le> 1024"
  moreover have "(1024::real) = 2 ^ 10" by simp
  moreover have "(2::real) ^ 10 \<le> 2 ^ 1023" by (rule power_increasing) simp_all
  ultimately show "\<bar>x\<bar> \<le> 2 ^ 1023" by (simp only:)
qed

lemma fl_half_one: "fl (1/2) = 1/2"
  using fl_dyadic[of 1 1] by simp

lemma fl_lit_1_10: "fl (1 / 10) = 3602879701896397 / 36028797018963968"
  by (subst fl_eq_div[where j = 56]) (simp_all add: round_even_def)

lemma fl_lit_1_20: "fl (1 / 20) = 3602879701896397 / 72057594037927936"
  by (subst fl_eq_div[where j = 57]) (simp_all add: round_even_def)

lemma fl_lit_2_5: "fl (2 / 5) = 3602879701896397 / 9007199254740992"
  by (subst fl_eq_div[where j = 54]) (simp_all add: round_even_def)

lemma fl_lit_3_10: "fl (3 / 10) = 5404319552844595 / 18014398509481984"
  by (subst fl_eq_div[where j = 54]) (simp_all add: round_even_def)

lemma fl_lit_1_5: "fl (1 / 5) = 3602879701896397 / 18014398509481984"
  by (subst fl_eq_div[where j = 55]) (simp_all add: round_even_def)

lemma fl_lit_1_50: "fl (1 / 50) = 5764607523034235 / 288230376151711744"
  by (subst fl_eq_div[where j = 58]) (simp_all add: round_even_def)

lemma fl_lit_3_2: "fl (3 / 2) = 3 / 2"
  by (subst fl_eq_div[where j = 52]) (simp_all add: round_even_def)

lemma fl_lit_2: "fl (2) = 2"
  by (subst fl_eq_div[where j = 51]) (simp_all add: round_even_def)

lemma fl_4: "fl (4) = 4"
  by (subst fl_eq_div[where j = 50]) (simp_all add: round_even_def)

lemma fl_ovl_a: "fl (77461913590772531 / 18014398509481984) = 4841369599423283 / 1125899906842624"
  by (subst fl_eq_div[where j = 50]) (simp_all add: round_even_def)

lemma fl_ovl_b: "fl (4841369599423283 / 1125899906842624) = 4841369599423283 / 1125899906842624"
  by (subst fl_eq_div[where j = 50]) (simp_all add: round_even_def)

lemmas fl_lits = fl_half_one fl_lit_1_10 fl_lit_1_20 fl_lit_2_5 fl_lit_3_10 fl_lit_1_5 fl_lit_1_50
  fl_lit_3_2 fl_lit_2

lemmas score_eval = calculate_score_def group_px_def np_sum_eq_def pixels_def size_of_def
  on_ok_def context_check_def score_calc_def dbl_def fp_gt_def fp_sub_def py_min_def py_max_def
  debug_report_def rnd_small inf_of_sign_def Let_def

lemma ids_overlap:
  "BIKE_LANE_IDS lower_greek vocab_overlap = {0}" "WATER_IDS lower_greek vocab_overlap = {0}"
  "NATURE_IDS lower_greek vocab_overlap = {}" "ROAD_IDS lower_greek vocab_overlap = {}" "UGLY_IDS lower_greek vocab_overlap = {}"
  by (simp_all add: vocab_overlap_def BIKE_LANE_IDS_def WATER_IDS_def NATURE_IDS_def
      ROAD_IDS_def UGLY_IDS_def str_eval)

lemma overlap_eval:
  "calculate_score lower_greek vocab_overlap (Segmented [[0]]) False = Inr ([], Fin 1, Waterfront)"
  by (simp add: score_eval ids_overlap fl_lits fl_4 fl_ovl_a fl_ovl_b)

lemma overlap_ratios:
  "water_ratio (group_ratios lower_greek vocab_overlap [[0]]) = 1"
  "bike_lane_ratio (group_ratios lower_greek vocab_overlap [[0]]) = 1"
  by (simp_all add: group_ratios_def ratio_of_def group_count_def ids_overlap pixels_def
      size_of_def)

section \<open>The error path and the clamp\<close>

lemma clamp_fp: "\<exists>s. py_max (Fin 0) (py_min (Fin 1) x) = Fin s \<and> 0 \<le> s \<and> s \<le> 1"
  by (cases x) (auto simp: py_max_def py_min_def fp_gt_def)

lemma score_calc_clamped:
  assumes "score_calc b w n u t bonus penalty = Inr score"
  shows "\<exists>s. score = Fin s \<and> 0 \<le> s \<and> s \<le> 1"
  using assms clamp_fp
  by (auto simp: score_calc_def on_ok_def Let_def split: sum.splits)

text \<open>
  C9. When the image cannot be opened, \<open>calculate_score\<close> prints the error and returns the
  neutral pair \<open>(0.5, "Error")\<close>: no exception escapes, and the score lies in \<open>[0, 1]\<close>.
\<close>

theorem calculate_score_unreadable:
  "calculate_score str_lower id2label Unreadable debug = Inr ([ErrorOpening], Fin (1/2), Error)
   \<and> status_text Error = lit ''Error'' \<and> (0::real) \<le> 1/2 \<and> (1/2::real) \<le> 1"
  by (simp add: calculate_score_def dbl_def fl_half_one)

text \<open>
  C5. For every vocabulary and every input, the call with \<open>debug=True\<close> and the call with
  \<open>debug=False\<close> end the same way: the same exception, or the same pair \<open>(score, status)\<close>.
  Only what is printed differs.
\<close>

theorem debug_frame:
  "map_sum id snd (calculate_score str_lower id2label img True)
   = map_sum id snd (calculate_score str_lower id2label img False)"
  by (cases img)
     (auto simp: calculate_score_def on_ok_def Let_def split: sum.splits prod.splits)

text \<open>
  C3. Whenever \<open>calculate_score\<close> returns, the score is a finite double in \<open>[0, 1]\<close>, whatever
  the ratios, the bonus and the penalty are (a NaN or an infinity before the clamp
  included).
\<close>

theorem score_clamped:
  assumes "calculate_score str_lower id2label img debug = Inr (out, score, st)"
  shows "\<exists>s. score = Fin s \<and> 0 \<le> s \<and> s \<le> 1"
proof (cases img)
  case Unreadable
  with assms have "score = Fin (1/2)"
    by (simp add: calculate_score_def dbl_def fl_half_one)
  then show ?thesis by (intro exI[of _ "1/2"]) simp
next
  case (Segmented pred_seg)
  with assms obtain b w n u t bonus penalty where "score_calc b w n u t bonus penalty = Inr score"
    by (auto simp: calculate_score_def on_ok_def Let_def split: sum.splits prod.splits)
  then show ?thesis by (rule score_calc_clamped)
qed

text \<open>
  The example of the claim: one pixel of a class that is both water and bike lane gives
  \<open>water_ratio = 1.0\<close> and \<open>bike_lane_ratio = 1.0\<close>; the sum before the clamp is \<open>4.3\<close> and the
  returned score is exactly \<open>1.0\<close>.
\<close>

theorem score_clamped_witness:
  "water_ratio (group_ratios lower_greek vocab_overlap [[0]]) = 1
   \<and> bike_lane_ratio (group_ratios lower_greek vocab_overlap [[0]]) = 1
   \<and> calculate_score lower_greek vocab_overlap (Segmented [[0]]) False = Inr ([], Fin 1, Waterfront)
   \<and> (\<exists>s. Fin 1 = Fin s \<and> 0 \<le> s \<and> s \<le> 1)"
  using score_clamped[OF overlap_eval] overlap_eval overlap_ratios by simp

section \<open>The empty label map\<close>

lemma ids_city:
  "BIKE_LANE_IDS lower_greek vocab_city = {1}" "WATER_IDS lower_greek vocab_city = {0}"
  "NATURE_IDS lower_greek vocab_city = {4}" "ROAD_IDS lower_greek vocab_city = {3}" "UGLY_IDS lower_greek vocab_city = {2}"
  by (simp_all add: vocab_city_def BIKE_LANE_IDS_def WATER_IDS_def NATURE_IDS_def
      ROAD_IDS_def UGLY_IDS_def str_eval)

lemma rnd_0 [simp]: "rnd 0 = Fin 0"
  by (simp add: rnd_small)

lemma group_px_empty:
  assumes "size_of pred_seg = 0"
  shows "group_px pred_seg ids = (if ids = {} then PyInt 0 else NpInt 0)"
  using assms by (simp add: group_px_def np_sum_eq_def size_of_def)

lemma empty_map_result:
  assumes "size_of pred_seg = 0"
  shows "calculate_score str_lower id2label (Segmented pred_seg) debug =
    (if BIKE_LANE_IDS str_lower id2label = {} \<or> WATER_IDS str_lower id2label = {} \<or> NATURE_IDS str_lower id2label = {}
        \<or> ROAD_IDS str_lower id2label = {} \<or> UGLY_IDS str_lower id2label = {}
     then Inl ZeroDivisionError
     else Inr (if debug then [BreakdownHeader, BreakdownFooter] else [], Fin 1, MixedUrban))"
proof -
  have px: "pixels pred_seg = []" using assms by (simp add: size_of_def)
  have u: "np_unique pred_seg = []" by (simp add: np_unique_def px)
  show ?thesis
    by (simp add: calculate_score_def group_px_empty[OF assms] assms on_ok_def context_check_def
        score_calc_def dbl_def fp_gt_def fp_sub_def py_min_def py_max_def debug_report_def u
        inf_of_sign_def Let_def)
qed

text \<open>
  C4 (as the code has it). \<open>calculate_score\<close> has no guard for an empty label map: it
  divides by \<open>total = 0\<close>. When one of the five groups has no class-id, its pixel sum is
  the Python integer \<open>0\<close> and \<open>ZeroDivisionError\<close> escapes. When all five groups have a
  class-id, the sums are NumPy integers, every ratio is NaN, no rule of the context check
  fires, the clamp turns the NaN score into \<open>1.0\<close>, and the call returns
  \<open>(1.0, "Mixed / Urban")\<close>.
\<close>

theorem empty_label_map:
  assumes "size_of pred_seg = 0"
  shows "calculate_score str_lower id2label (Segmented pred_seg) debug =
    (if BIKE_LANE_IDS str_lower id2label = {} \<or> WATER_IDS str_lower id2label = {} \<or> NATURE_IDS str_lower id2label = {}
        \<or> ROAD_IDS str_lower id2label = {} \<or> UGLY_IDS str_lower id2label = {}
     then Inl ZeroDivisionError
     else Inr (if debug then [BreakdownHeader, BreakdownFooter] else [], Fin 1, MixedUrban))"
  using assms by (rule empty_map_result)

theorem empty_label_map_witness:
  "size_of [] = 0
   \<and> calculate_score lower_greek vocab_city (Segmented []) True
       = Inr ([BreakdownHeader, BreakdownFooter], Fin 1, MixedUrban)
   \<and> calculate_score lower_greek vocab_overlap (Segmented [[], []]) True = Inl ZeroDivisionError"
  using empty_label_map[where pred_seg = "[]" and str_lower = lower_greek and id2label = vocab_city
      and debug = True]
    empty_label_map[where pred_seg = "[[], []]" and str_lower = lower_greek
      and id2label = vocab_overlap and debug = True]
  by (simp add: size_of_def pixels_def ids_city ids_overlap)

text \<open>
  The claim as stated fails: with a class in every group, the empty label map returns a
  score and raises nothing.
\<close>

theorem empty_label_map_counterexample:
  "size_of [] = 0
   \<and> calculate_score lower_greek vocab_city (Segmented []) False = Inr ([], Fin 1, MixedUrban)"
  using empty_map_result[where pred_seg = "[]" and str_lower = lower_greek and id2label = vocab_city
      and debug = False]
  by (simp add: size_of_def pixels_def ids_city)

section \<open>The debug breakdown\<close>

lemma breakdown_loop_filter:
  "breakdown_loop id2label (size_of pred_seg) (map (\<lambda>c. (c, np_sum_eq pred_seg c)) ids) =
     map (\<lambda>i. BreakdownLine (label_of id2label i) (class_ratio pred_seg i))
       (filter (\<lambda>i. fp_gt (class_ratio pred_seg i) (dbl (2/100))) ids)"
  by (induction ids) (simp_all add: class_ratio_def Let_def)

text \<open>
  C8. With \<open>debug=True\<close> the breakdown prints, between its header and footer, one line
  \<open>(label, ratio)\<close> for exactly the class-ids that occur in the label map with a ratio
  strictly above \<open>0.02\<close>, in ascending order of class-id and each once. The label is the
  vocabulary's name of the class-id, and the decimal string of the class-id when the
  vocabulary has no entry for it. With \<open>debug=False\<close> nothing is printed.
\<close>

theorem debug_breakdown:
  "(\<exists>ids. debug_report id2label pred_seg True =
        [BreakdownHeader]
        @ map (\<lambda>i. BreakdownLine (label_of id2label i) (class_ratio pred_seg i)) ids
        @ [BreakdownFooter]
      \<and> sorted ids \<and> distinct ids
      \<and> set ids = {i. i \<in> set (pixels pred_seg) \<and> fp_gt (class_ratio pred_seg i) (dbl (2/100))})
   \<and> (\<forall>i label. map_of id2label i = Some label \<longrightarrow> label_of id2label i = label)
   \<and> (\<forall>i. map_of id2label i = None \<longrightarrow> label_of id2label i = str_int i)
   \<and> debug_report id2label pred_seg False = []"
proof -
  define ids where
    "ids = filter (\<lambda>i. fp_gt (class_ratio pred_seg i) (dbl (2/100))) (sort (remdups (pixels pred_seg)))"
  have "debug_report id2label pred_seg True =
        [BreakdownHeader]
        @ map (\<lambda>i. BreakdownLine (label_of id2label i) (class_ratio pred_seg i)) ids
        @ [BreakdownFooter]"
    by (simp add: debug_report_def np_unique_def breakdown_loop_filter ids_def)
  moreover have "sorted ids" by (simp add: ids_def sorted_filter[where f = "\<lambda>x. x", simplified])
  moreover have "distinct ids" by (simp add: ids_def)
  moreover have "set ids =
      {i. i \<in> set (pixels pred_seg) \<and> fp_gt (class_ratio pred_seg i) (dbl (2/100))}"
    by (auto simp: ids_def)
  ultimately show ?thesis by (auto simp: label_of_def debug_report_def)
qed

lemma fl_4_5: "fl (4 / 5) = 3602879701896397 / 4503599627370496"
  by (subst fl_eq_div[where j = 53]) (simp_all add: round_even_def)

lemma fl_5: "fl (5) = 5"
  by (subst fl_eq_div[where j = 50]) (simp_all add: round_even_def)


lemma breakdown_eval:
  "debug_report vocab_city [[7, 0, 0, 0, 0]] True =
     [BreakdownHeader, BreakdownLine (lit ''Water'') (Fin (fl (4/5))), BreakdownLine (lit ''7'') (Fin (fl (1/5))),
      BreakdownFooter]"
  by (simp add: debug_report_def np_unique_def pixels_def size_of_def np_sum_eq_def label_of_def
      vocab_city_def str_int_def str_nat.simps digit_char_def lit_def Let_def
      rnd_small dbl_def fp_gt_def fl_lit_1_5 fl_lit_1_50 fl_4_5 fl_5 fl_4)

theorem debug_breakdown_witness:
  "debug_report vocab_city [[7, 0, 0, 0, 0]] True =
     [BreakdownHeader, BreakdownLine (lit ''Water'') (Fin (fl (4/5))), BreakdownLine (lit ''7'') (Fin (fl (1/5))),
      BreakdownFooter]
   \<and> label_of vocab_city 0 = lit ''Water'' \<and> label_of vocab_city 7 = lit ''7''
   \<and> debug_report vocab_city [[7, 0, 0, 0, 0]] False = []"
  using debug_breakdown[of vocab_city "[[7, 0, 0, 0, 0]]"] breakdown_eval
  by (simp add: vocab_city_def str_int_def str_nat.simps digit_char_def lit_def)

section \<open>The score as a function of the ratios\<close>

lemma sum_count_list_le:
  assumes "finite S"
  shows "(\<Sum>i\<in>S. count_list xs i) \<le> length xs"
proof (induction xs)
  case Nil
  then show ?case by simp
next
  case (Cons x xs)
  have "(\<Sum>i\<in>S. count_list (x # xs) i)
      = (\<Sum>i\<in>S. count_list xs i) + (\<Sum>i\<in>S. if x = i then 1 else 0)"
    by (simp add: sum.distrib[symmetric] if_distrib cong: if_cong)
  also have "(\<Sum>i\<in>S. if x = i then 1 else 0) \<le> (1::nat)"
    using assms by (simp add: sum.delta)
  finally show ?case using Cons.IH by simp
qed

lemma finite_get_id_by_name [simp]: "finite (get_id_by_name str_lower v keys)"
  by (simp add: get_id_by_name_def)

lemma finite_groups [simp]:
  "finite (BIKE_LANE_IDS str_lower v)" "finite (WATER_IDS str_lower v)" "finite (NATURE_IDS str_lower v)"
  "finite (ROAD_IDS str_lower v)" "finite (UGLY_IDS str_lower v)"
  by (simp_all add: BIKE_LANE_IDS_def WATER_IDS_def NATURE_IDS_def ROAD_IDS_def UGLY_IDS_def)

lemma group_count_le: "finite ids \<Longrightarrow> group_count pred_seg ids \<le> size_of pred_seg"
  by (simp add: group_count_def size_of_def sum_count_list_le)

lemma group_count_empty [simp]: "group_count pred_seg {} = 0"
  by (simp add: group_count_def)

lemma group_px_eq:
  "group_px pred_seg ids =
     (if ids = {} then PyInt 0 else NpInt (int (group_count pred_seg ids)))"
  by (simp add: group_px_def group_count_def np_sum_eq_def)

lemma fl_abs_le_pow2:
  assumes "\<bar>x\<bar> \<le> 2 ^ n"
  shows "\<bar>fl x\<bar> \<le> 2 ^ n"
proof -
  have "fl (2 powr of_int (int n)) = 2 powr of_int (int n)"
    by (rule fl_pow2) simp
  then have e: "fl (2 ^ n) = 2 ^ n" by (simp only: powr_int_nat)
  have "fl x \<le> fl (2 ^ n)" "fl (- (2 ^ n)) \<le> fl x"
    using assms by (auto intro!: fl_mono)
  then show ?thesis by (simp add: e fl_minus)
qed

lemma fl_in_unit: assumes "0 \<le> x" "x \<le> 1" shows "0 \<le> fl x" "fl x \<le> 1"
  using fl_mono[OF assms(1)] fl_mono[OF assms(2)] by simp_all

lemma fl_nat_ge_1: assumes "0 < n" shows "1 \<le> fl (real n)"
proof -
  have "(1::real) \<le> real n" using assms by simp
  then have "fl 1 \<le> fl (real n)" by (rule fl_mono)
  then show ?thesis by simp
qed

lemma pow63_le: "(2::real) ^ 63 \<le> 2 ^ 1023"
  by (rule power_increasing) simp_all

lemma fl_nat_le: assumes "n < 2 ^ 63" shows "fl (real n) \<le> 2 ^ 63" "0 \<le> fl (real n)"
proof -
  have "real n < 2 ^ 63" using assms by (metis of_nat_less_iff of_nat_numeral of_nat_power)
  then have "\<bar>real n\<bar> \<le> 2 ^ 63" by simp
  then have "\<bar>fl (real n)\<bar> \<le> 2 ^ 63" by (rule fl_abs_le_pow2)
  then show "fl (real n) \<le> 2 ^ 63" by simp
  show "0 \<le> fl (real n)" by (rule fl_nonneg) simp
qed

lemma rnd_nat: assumes "n < 2 ^ 63" shows "rnd (real n) = Fin (fl (real n))"
proof (rule rnd_Fin)
  have "real n < 2 ^ 63" using assms by (metis of_nat_less_iff of_nat_numeral of_nat_power)
  then show "\<bar>real n\<bar> \<le> 2 ^ 1023" using pow63_le by simp
qed

lemma ratio_of_unit:
  assumes "px \<le> t" "0 < t"
  shows "0 \<le> ratio_of px t" "ratio_of px t \<le> 1"
proof -
  have t: "1 \<le> fl (real t)" by (rule fl_nat_ge_1[OF assms(2)])
  have "fl (real px) \<le> fl (real t)" using assms(1) by (intro fl_mono) simp
  moreover have "0 \<le> fl (real px)" by (rule fl_nonneg) simp
  ultimately have "0 \<le> fl (real px) / fl (real t)" "fl (real px) / fl (real t) \<le> 1"
    using t by (simp_all add: divide_le_eq)
  then show "0 \<le> ratio_of px t" "ratio_of px t \<le> 1"
    unfolding ratio_of_def by (rule fl_in_unit)+
qed

lemma ratio_of_0 [simp]: "ratio_of 0 t = 0"
  by (simp add: ratio_of_def)

lemma truediv_group:
  assumes t: "0 < t" "t < 2 ^ 63" and px: "group_count pred_seg ids \<le> t"
  shows "truediv (group_px pred_seg ids) t = Inr (Fin (ratio_of (group_count pred_seg ids) t))"
proof (cases "ids = {}")
  case True
  then show ?thesis using t by (simp add: group_px_eq rnd_small)
next
  case False
  define px where "px = group_count pred_seg ids"
  have pxb: "px < 2 ^ 63" using px t by (simp add: px_def)
  have q: "0 \<le> fl (real px) / fl (real t)" "fl (real px) / fl (real t) \<le> 1"
  proof -
    have "fl (real px) \<le> fl (real t)" using px by (intro fl_mono) (simp add: px_def)
    moreover have "0 \<le> fl (real px)" by (rule fl_nonneg) simp
    moreover have "1 \<le> fl (real t)" by (rule fl_nat_ge_1[OF t(1)])
    ultimately show "0 \<le> fl (real px) / fl (real t)" "fl (real px) / fl (real t) \<le> 1"
      by (simp_all add: divide_le_eq)
  qed
  have nz: "fl (real t) \<noteq> 0" using fl_nat_ge_1[OF t(1)] by simp
  have "truediv (NpInt (int px)) t = Inr (fp_div (rnd (real px)) (rnd (real t)))"
    by simp
  also have "\<dots> = Inr (rnd (fl (real px) / fl (real t)))"
    using nz by (simp add: rnd_nat[OF pxb] rnd_nat[OF t(2)])
  also have "\<dots> = Inr (Fin (fl (fl (real px) / fl (real t))))"
    using q by (simp add: rnd_small)
  finally show ?thesis using False by (simp add: group_px_eq px_def ratio_of_def)
qed

lemma fl_three_halves: "fl (3/2) = 3/2"
  using fl_dyadic[of 3 1] by simp

lemma fl_two: "fl 2 = 2"
  using fl_of_int[of 2] by simp

lemma fl_le_pow:
  assumes "\<bar>x\<bar> \<le> 2 ^ n"
  shows "fl x \<le> 2 ^ n" "- (2 ^ n) \<le> fl x"
  using fl_abs_le_pow2[OF assms] by simp_all

lemma clamp_Fin: "py_max (Fin 0) (py_min (Fin 1) (Fin s)) = Fin (clamp s 0 1)"
  by (simp add: py_max_def py_min_def fp_gt_def clamp_def max_def min_def)

lemma fp_sub_Fin: "fp_sub (Fin a) (Fin b) = rnd (a - b)"
  by (simp add: fp_sub_def)

lemma score_calc_Fin:
  assumes b: "0 \<le> b" "b \<le> 1" and w: "0 \<le> w" "w \<le> 1" and n: "0 \<le> n" "n \<le> 1"
    and u: "0 \<le> u" "u \<le> 1" and bo: "0 \<le> bonus" "bonus \<le> 1"
    and pe: "0 \<le> penalty" "penalty \<le> 1"
    and div: "truediv ugly_px t = Inr (Fin u)"
  shows "score_calc (Fin b) (Fin w) (Fin n) ugly_px t (Fin bonus) (Fin penalty) =
     Inr (Fin (clamp (fl (fl (fl (fl (fl (fl (1/2 + fl (n * (1/2))) + fl (w * (3/2)))
        + fl (b * 2)) - fl (u * (1/2))) + bonus) - penalty)) 0 1))"
proof -
  define a1 where "a1 = fl (n * (1/2))"
  define s1 where "s1 = fl (1/2 + a1)"
  define a2 where "a2 = fl (w * (3/2))"
  define s2 where "s2 = fl (s1 + a2)"
  define a3 where "a3 = fl (b * 2)"
  define s3 where "s3 = fl (s2 + a3)"
  define a4 where "a4 = fl (u * (1/2))"
  define s4 where "s4 = fl (s3 - a4)"
  define s5 where "s5 = fl (s4 + bonus)"
  define s6 where "s6 = fl (s5 - penalty)"
  have a1: "\<bar>a1\<bar> \<le> 1" unfolding a1_def using fl_abs_le_pow2[of "n * (1/2)" 0] n by simp
  have s1: "\<bar>s1\<bar> \<le> 2" unfolding s1_def using fl_abs_le_pow2[of "1/2 + a1" 1] a1 by simp
  have a2: "\<bar>a2\<bar> \<le> 2" unfolding a2_def using fl_abs_le_pow2[of "w * (3/2)" 1] w by simp
  have s2: "\<bar>s2\<bar> \<le> 4" unfolding s2_def using fl_abs_le_pow2[of "s1 + a2" 2] s1 a2 by simp
  have a3: "\<bar>a3\<bar> \<le> 2" unfolding a3_def using fl_abs_le_pow2[of "b * 2" 1] b by simp
  have s3: "\<bar>s3\<bar> \<le> 8" unfolding s3_def using fl_abs_le_pow2[of "s2 + a3" 3] s2 a3 by simp
  have a4: "\<bar>a4\<bar> \<le> 1" unfolding a4_def using fl_abs_le_pow2[of "u * (1/2)" 0] u by simp
  have s4: "\<bar>s4\<bar> \<le> 16" unfolding s4_def using fl_abs_le_pow2[of "s3 - a4" 4] s3 a4 by simp
  have s5: "\<bar>s5\<bar> \<le> 32" unfolding s5_def using fl_abs_le_pow2[of "s4 + bonus" 5] s4 bo by simp
  have r1: "fp_mul (Fin n) (dbl (1/2)) = Fin a1"
    using n by (simp add: dbl_def fl_half_one rnd_small a1_def)
  have r2: "fp_add (dbl (1/2)) (Fin a1) = Fin s1"
    using a1 by (simp add: dbl_def fl_half_one rnd_small s1_def)
  have r3: "fp_mul (Fin w) (dbl (3/2)) = Fin a2"
    using w by (simp add: dbl_def fl_three_halves rnd_small a2_def)
  have r4: "fp_add (Fin s1) (Fin a2) = Fin s2"
    using s1 a2 by (simp add: rnd_small s2_def)
  have r5: "fp_mul (Fin b) (dbl 2) = Fin a3"
    using b by (simp add: dbl_def fl_two rnd_small a3_def)
  have r6: "fp_add (Fin s2) (Fin a3) = Fin s3"
    using s2 a3 by (simp add: rnd_small s3_def)
  have r7: "fp_mul (Fin u) (dbl (1/2)) = Fin a4"
    using u by (simp add: dbl_def fl_half_one rnd_small a4_def)
  have r8: "fp_sub (Fin s3) (Fin a4) = Fin s4"
    using s3 a4 by (simp add: fp_sub_Fin rnd_small s4_def)
  have r9: "fp_add (Fin s4) (Fin bonus) = Fin s5"
    using s4 bo by (simp add: rnd_small s5_def)
  have r10: "fp_sub (Fin s5) (Fin penalty) = Fin s6"
    using s5 pe by (simp add: fp_sub_Fin rnd_small s6_def)
  have "score_calc (Fin b) (Fin w) (Fin n) ugly_px t (Fin bonus) (Fin penalty)
      = Inr (Fin (clamp s6 0 1))"
    by (simp add: score_calc_def div on_ok_def r1 r2 r3 r4 r5 r6 r7 r8 r9 r10 clamp_Fin Let_def
        del: fp_add.simps fp_mul.simps)
  then show ?thesis
    by (simp only: s6_def s5_def s4_def a4_def s3_def a3_def s2_def a2_def s1_def a1_def)
qed

lemma pow_neg63: "(2::real) powr (- 1021) \<le> 1 / 2 ^ 63"
proof -
  have "(2::real) powr (- 1021) \<le> 2 powr (- 63)" by (rule powr_mono) simp_all
  also have "(2::real) powr (- 63) = 2 powr of_int (- int 63)" by simp
  also have "\<dots> = 1 / 2 ^ 63" by (rule powr_neg_nat)
  finally show ?thesis .
qed

lemma fl_half_big:
  assumes "x = 0 \<or> 1 / 2 ^ 63 \<le> x"
  shows "fl (x / 2) = fl x / 2"
proof (rule fl_half)
  show "x = 0 \<or> 2 powr (- 1021) \<le> \<bar>x\<bar>"
    using assms pow_neg63 by (auto simp del: power_numeral)
qed

lemma fl_inv_pow63: "fl (1 / 2 ^ 63) = 1 / 2 ^ 63"
  using fl_dyadic[of 1 63] by simp

text \<open>Halving the pixel count before the division halves the ratio.\<close>

lemma halved_ratio:
  assumes t: "0 < t" "t < 2 ^ 63" and px: "px \<le> t"
  shows "fl (fl (fl (real px) * (1/2)) / fl (real t)) = ratio_of px t / 2"
    and "fl (ratio_of px t * (1/2)) = ratio_of px t / 2"
proof -
  define P where "P = fl (real px)"
  define T where "T = fl (real t)"
  have T: "1 \<le> T" "T \<le> 2 ^ 63"
    unfolding T_def using fl_nat_ge_1[OF t(1)] fl_nat_le(1)[OF t(2)] by simp_all
  have P: "P = 0 \<or> 1 \<le> P"
  proof (cases "px = 0")
    case True
    then show ?thesis by (simp add: P_def)
  next
    case False
    then have "1 \<le> fl (real px)" by (intro fl_nat_ge_1) simp
    then show ?thesis by (simp add: P_def)
  qed
  have q: "P / T = 0 \<or> 1 / 2 ^ 63 \<le> P / T"
  proof (cases "P = 0")
    case True
    then show ?thesis by simp
  next
    case False
    with P have "1 \<le> P" by simp
    then have "1 / T \<le> P / T" using T by (simp add: divide_right_mono)
    moreover have "1 / 2 ^ 63 \<le> 1 / T" using T by (simp add: frac_le del: power_numeral)
    ultimately show ?thesis by linarith
  qed
  define R where "R = fl (P / T)"
  have R: "R = 0 \<or> 1 / 2 ^ 63 \<le> R"
  proof (cases "P / T = 0")
    case True
    have "R = 0" by (simp only: R_def True fl_0)
    then show ?thesis by simp
  next
    case False
    with q have "1 / 2 ^ 63 \<le> P / T" by simp
    then have "fl (1 / 2 ^ 63) \<le> fl (P / T)" by (rule fl_mono)
    then show ?thesis by (simp only: fl_inv_pow63 R_def) simp
  qed
  have h1: "fl (P * (1/2)) = P / 2"
  proof -
    have "fl (P / 2) = fl P / 2"
      by (rule fl_half_big) (use P in \<open>auto simp del: power_numeral intro: order_trans[of _ 1]\<close>)
    then show ?thesis by (simp add: P_def)
  qed
  have h2: "fl (P / 2 / T) = R / 2"
  proof -
    have "fl (P / T / 2) = fl (P / T) / 2" by (rule fl_half_big[OF q])
    then show ?thesis by (simp add: R_def field_simps)
  qed
  have h3: "fl (R * (1/2)) = R / 2"
  proof -
    have "fl (R / 2) = fl R / 2" by (rule fl_half_big[OF R])
    then show ?thesis by (simp add: R_def)
  qed
  have r: "ratio_of px t = R" by (simp add: ratio_of_def R_def P_def T_def)
  have "fl (fl (fl (real px) * (1/2)) / fl (real t)) = fl (fl (P * (1/2)) / T)"
    by (simp only: P_def T_def)
  also have "\<dots> = fl (P / 2 / T)" by (simp only: h1)
  also have "\<dots> = R / 2" by (rule h2)
  finally show "fl (fl (fl (real px) * (1/2)) / fl (real t)) = ratio_of px t / 2"
    by (simp only: r)
  show "fl (ratio_of px t * (1/2)) = ratio_of px t / 2"
    unfolding r by (rule h3)
qed

lemma rnd_le_pow63: assumes "\<bar>x\<bar> \<le> 2 ^ 63" shows "rnd x = Fin (fl x)"
  by (rule rnd_Fin) (use assms pow63_le in linarith)

lemma truediv_halved:
  assumes t: "0 < t" "t < 2 ^ 63" and px: "group_count pred_seg ids \<le> t"
  shows "truediv (mul_float (group_px pred_seg ids) (dbl (1/2))) t
         = Inr (Fin (ratio_of (group_count pred_seg ids) t / 2))"
proof (cases "ids = {}")
  case True
  have nz: "fl (real t) \<noteq> 0" using fl_nat_ge_1[OF t(1)] by simp
  show ?thesis
    using t nz by (simp add: True group_px_eq dbl_def fl_half_one rnd_small rnd_nat[OF t(2)])
next
  case False
  define px where "px = group_count pred_seg ids"
  define P where "P = fl (real px)"
  define T where "T = fl (real t)"
  have pxb: "px < 2 ^ 63" using px t by (simp add: px_def)
  have T: "1 \<le> T" unfolding T_def by (rule fl_nat_ge_1[OF t(1)])
  have P: "0 \<le> P" "P \<le> 2 ^ 63" unfolding P_def using fl_nat_le[OF pxb] by simp_all
  define H where "H = fl (P * (1/2))"
  have "\<bar>P * (1/2)\<bar> \<le> 2 ^ 63" using P by simp
  then have H: "\<bar>H\<bar> \<le> 2 ^ 63" "rnd (P * (1/2)) = Fin H"
    unfolding H_def by (rule fl_abs_le_pow2, rule rnd_le_pow63)
  have "\<bar>H\<bar> / T \<le> \<bar>H\<bar> / 1" using T by (intro divide_left_mono) simp_all
  then have "\<bar>H / T\<bar> \<le> \<bar>H\<bar>" using T by (simp add: abs_divide)
  then have q: "\<bar>H / T\<bar> \<le> 2 ^ 63" using H(1) by linarith
  have m: "mul_float (group_px pred_seg ids) (dbl (1/2)) = NpFloat (Fin H)"
    using False H(2)
    by (simp add: group_px_eq dbl_def fl_half_one rnd_nat[OF pxb] px_def[symmetric] P_def[symmetric])
  have "truediv (NpFloat (Fin H)) t = Inr (rnd (H / T))"
    using T by (simp add: rnd_nat[OF t(2)] T_def[symmetric])
  also have "\<dots> = Inr (Fin (fl (H / T)))" by (simp only: rnd_le_pow63[OF q])
  also have "fl (H / T) = ratio_of px t / 2"
    unfolding H_def P_def T_def using px by (intro halved_ratio(1)[OF t]) (simp add: px_def)
  finally show ?thesis by (simp only: m px_def)
qed

lemma context_check_Fin:
  assumes "truediv road_px t = Inr (Fin r)"
  shows "context_check (Fin b) (Fin w) (Fin n) road_px ugly_px t =
     Inr (if fl (1/10) < w then (Waterfront, Fin (fl (3/10)), Fin 0, mul_float ugly_px (dbl (1/2)))
          else if fl (5/100) < b then (DedicatedBikeLane, Fin (fl (2/10)), Fin 0, ugly_px)
          else if fl (4/10) < n then (GreenTunnel, Fin (fl (1/10)), Fin 0, ugly_px)
          else if fl (4/10) < r then (CityStreetNoBikeLane, Fin 0, Fin (fl (2/10)), ugly_px)
          else (MixedUrban, Fin 0, Fin 0, ugly_px))"
  by (simp add: context_check_def assms on_ok_def fp_gt_def dbl_def)

lemma lit_unit:
  "0 \<le> fl (3/10)" "fl (3/10) \<le> 1" "0 \<le> fl (1/5)" "fl (1/5) \<le> 1"
  "0 \<le> fl (1/10)" "fl (1/10) \<le> 1"
  by (rule fl_in_unit; simp)+

lemma calculate_score_ratios:
  assumes t: "0 < size_of pred_seg" "size_of pred_seg < 2 ^ 63"
  shows "calculate_score str_lower id2label (Segmented pred_seg) debug =
     Inr (debug_report id2label pred_seg debug,
          Fin (spec_score (group_ratios str_lower id2label pred_seg)),
          spec_status (group_ratios str_lower id2label pred_seg))"
proof -
  define T where "T = size_of pred_seg"
  define r where "r = group_ratios str_lower id2label pred_seg"
  note T = t[folded T_def]
  have le: "\<And>ids. finite ids \<Longrightarrow> group_count pred_seg ids \<le> T"
    unfolding T_def by (rule group_count_le)
  have dv: "\<And>ids. finite ids \<Longrightarrow>
      truediv (group_px pred_seg ids) T = Inr (Fin (ratio_of (group_count pred_seg ids) T))"
    by (rule truediv_group[OF T]) (rule le)
  have hv: "\<And>ids. finite ids \<Longrightarrow>
      truediv (mul_float (group_px pred_seg ids) (dbl (1/2))) T
        = Inr (Fin (ratio_of (group_count pred_seg ids) T / 2))"
    by (rule truediv_halved[OF T]) (rule le)
  have un: "\<And>ids. finite ids \<Longrightarrow>
      0 \<le> ratio_of (group_count pred_seg ids) T \<and> ratio_of (group_count pred_seg ids) T \<le> 1"
    using ratio_of_unit[OF le T(1)] by simp
  have rs: "bike_lane_ratio r = ratio_of (group_count pred_seg (BIKE_LANE_IDS str_lower id2label)) T"
    "water_ratio r = ratio_of (group_count pred_seg (WATER_IDS str_lower id2label)) T"
    "nature_ratio r = ratio_of (group_count pred_seg (NATURE_IDS str_lower id2label)) T"
    "road_ratio r = ratio_of (group_count pred_seg (ROAD_IDS str_lower id2label)) T"
    "ugly_ratio r = ratio_of (group_count pred_seg (UGLY_IDS str_lower id2label)) T"
    by (simp_all add: r_def group_ratios_def T_def)
  have b: "0 \<le> bike_lane_ratio r" "bike_lane_ratio r \<le> 1"
    and w: "0 \<le> water_ratio r" "water_ratio r \<le> 1"
    and n: "0 \<le> nature_ratio r" "nature_ratio r \<le> 1"
    and u: "0 \<le> ugly_ratio r" "ugly_ratio r \<le> 1"
    unfolding rs using un by simp_all
  have d: "truediv (group_px pred_seg (BIKE_LANE_IDS str_lower id2label)) T = Inr (Fin (bike_lane_ratio r))"
    "truediv (group_px pred_seg (WATER_IDS str_lower id2label)) T = Inr (Fin (water_ratio r))"
    "truediv (group_px pred_seg (NATURE_IDS str_lower id2label)) T = Inr (Fin (nature_ratio r))"
    "truediv (group_px pred_seg (ROAD_IDS str_lower id2label)) T = Inr (Fin (road_ratio r))"
    "truediv (group_px pred_seg (UGLY_IDS str_lower id2label)) T = Inr (Fin (ugly_ratio r))"
    unfolding rs by (rule dv, simp)+
  have dh: "truediv (mul_float (group_px pred_seg (UGLY_IDS str_lower id2label)) (dbl (1/2))) T
      = Inr (Fin (ugly_ratio r / 2))"
    unfolding rs by (rule hv) simp
  have e1: "fl (ugly_ratio r * (1/2)) = ugly_ratio r / 2"
    unfolding rs by (rule halved_ratio(2)[OF T]) (rule le, simp)
  have e2: "fl (ugly_ratio r) = ugly_ratio r"
    unfolding rs ratio_of_def by (rule fl_idem)
  have cc: "context_check (Fin (bike_lane_ratio r)) (Fin (water_ratio r)) (Fin (nature_ratio r))
      (group_px pred_seg (ROAD_IDS str_lower id2label)) (group_px pred_seg (UGLY_IDS str_lower id2label)) T = Inr
      (if fl (1/10) < water_ratio r then (Waterfront, Fin (fl (3/10)), Fin 0,
          mul_float (group_px pred_seg (UGLY_IDS str_lower id2label)) (dbl (1/2)))
       else if fl (5/100) < bike_lane_ratio r then (DedicatedBikeLane, Fin (fl (2/10)), Fin 0,
          group_px pred_seg (UGLY_IDS str_lower id2label))
       else if fl (4/10) < nature_ratio r then (GreenTunnel, Fin (fl (1/10)), Fin 0,
          group_px pred_seg (UGLY_IDS str_lower id2label))
       else if fl (4/10) < road_ratio r then (CityStreetNoBikeLane, Fin 0, Fin (fl (2/10)),
          group_px pred_seg (UGLY_IDS str_lower id2label))
       else (MixedUrban, Fin 0, Fin 0, group_px pred_seg (UGLY_IDS str_lower id2label)))"
    by (rule context_check_Fin[OF d(4)])
  have sc: "\<And>bonus penalty. 0 \<le> bonus \<Longrightarrow> bonus \<le> 1 \<Longrightarrow> 0 \<le> penalty \<Longrightarrow> penalty \<le> 1 \<Longrightarrow>
      score_calc (Fin (bike_lane_ratio r)) (Fin (water_ratio r)) (Fin (nature_ratio r))
        (group_px pred_seg (UGLY_IDS str_lower id2label)) T (Fin bonus) (Fin penalty)
      = Inr (Fin (spec_synthesize r bonus penalty 1))"
    unfolding spec_synthesize_def Let_def mult_1_right e2
    by (rule score_calc_Fin[OF b w n u _ _ _ _ d(5)])
  have uh: "0 \<le> ugly_ratio r / 2" "ugly_ratio r / 2 \<le> 1" using u by simp_all
  have sw: "\<And>bonus penalty. 0 \<le> bonus \<Longrightarrow> bonus \<le> 1 \<Longrightarrow> 0 \<le> penalty \<Longrightarrow> penalty \<le> 1 \<Longrightarrow>
      score_calc (Fin (bike_lane_ratio r)) (Fin (water_ratio r)) (Fin (nature_ratio r))
        (mul_float (group_px pred_seg (UGLY_IDS str_lower id2label)) (dbl (1/2))) T (Fin bonus) (Fin penalty)
      = Inr (Fin (spec_synthesize r bonus penalty (1/2)))"
    unfolding spec_synthesize_def Let_def e1
    by (rule score_calc_Fin[OF b w n uh _ _ _ _ dh])
  show ?thesis
    unfolding calculate_score_def image.case Let_def T_def[symmetric] r_def[symmetric]
    by (simp add: d cc on_ok_def sc sw lit_unit spec_score_def spec_status_def spec_classify_def)
qed

section \<open>Monotonicity and independence on the ratios\<close>

lemma clamp_mono: "x \<le> y \<Longrightarrow> clamp x lo hi \<le> clamp y lo hi"
  by (auto simp: clamp_def max_def min_def)

lemma spec_synthesize_mono:
  assumes "nature_ratio r1 = nature_ratio r2" "bike_lane_ratio r1 = bike_lane_ratio r2"
    and "water_ratio r1 \<le> water_ratio r2"
    and "fl (ugly_ratio r2 * d2) \<le> fl (ugly_ratio r1 * d1)"
    and "bonus1 \<le> bonus2" "penalty2 \<le> penalty1"
  shows "spec_synthesize r1 bonus1 penalty1 d1 \<le> spec_synthesize r2 bonus2 penalty2 d2"
proof -
  have a2: "fl (water_ratio r1 * (3/2)) \<le> fl (water_ratio r2 * (3/2))"
    using assms(3) by (intro fl_mono) simp
  have a4: "fl (fl (ugly_ratio r2 * d2) * (1/2)) \<le> fl (fl (ugly_ratio r1 * d1) * (1/2))"
    using assms(4) by (intro fl_mono) simp
  let ?s1 = "fl (1/2 + fl (nature_ratio r2 * (1/2)))"
  have s2: "fl (?s1 + fl (water_ratio r1 * (3/2))) \<le> fl (?s1 + fl (water_ratio r2 * (3/2)))"
    using a2 by (intro fl_mono) simp
  have s3: "fl (fl (?s1 + fl (water_ratio r1 * (3/2))) + fl (bike_lane_ratio r2 * 2))
      \<le> fl (fl (?s1 + fl (water_ratio r2 * (3/2))) + fl (bike_lane_ratio r2 * 2))"
    using s2 by (intro fl_mono) simp
  have s4: "fl (fl (fl (?s1 + fl (water_ratio r1 * (3/2))) + fl (bike_lane_ratio r2 * 2))
        - fl (fl (ugly_ratio r1 * d1) * (1/2)))
      \<le> fl (fl (fl (?s1 + fl (water_ratio r2 * (3/2))) + fl (bike_lane_ratio r2 * 2))
        - fl (fl (ugly_ratio r2 * d2) * (1/2)))"
    using s3 a4 by (intro fl_mono) linarith
  have s5: "fl (fl (fl (fl (?s1 + fl (water_ratio r1 * (3/2))) + fl (bike_lane_ratio r2 * 2))
        - fl (fl (ugly_ratio r1 * d1) * (1/2))) + bonus1)
      \<le> fl (fl (fl (fl (?s1 + fl (water_ratio r2 * (3/2))) + fl (bike_lane_ratio r2 * 2))
        - fl (fl (ugly_ratio r2 * d2) * (1/2))) + bonus2)"
    using s4 assms(5) by (intro fl_mono) linarith
  have s6: "fl (fl (fl (fl (fl (?s1 + fl (water_ratio r1 * (3/2))) + fl (bike_lane_ratio r2 * 2))
        - fl (fl (ugly_ratio r1 * d1) * (1/2))) + bonus1) - penalty1)
      \<le> fl (fl (fl (fl (fl (?s1 + fl (water_ratio r2 * (3/2))) + fl (bike_lane_ratio r2 * 2))
        - fl (fl (ugly_ratio r2 * d2) * (1/2))) + bonus2) - penalty2)"
    using s5 assms(6) by (intro fl_mono) linarith
  show ?thesis
    unfolding spec_synthesize_def Let_def assms(1) assms(2) by (rule clamp_mono[OF s6])
qed

lemma lit_order:
  "0 \<le> fl (1/5)" "0 \<le> fl (1/10)" "0 \<le> fl (3/10)" "fl (1/5) \<le> fl (3/10)" "fl (1/10) \<le> fl (3/10)"
  by (rule fl_nonneg, simp)+ (rule fl_mono, simp)+

lemma spec_score_mono:
  assumes eq: "bike_lane_ratio r1 = bike_lane_ratio r2" "nature_ratio r1 = nature_ratio r2"
      "road_ratio r1 = road_ratio r2" "ugly_ratio r1 = ugly_ratio r2"
    and u: "0 \<le> ugly_ratio r1"
    and w: "water_ratio r1 \<le> water_ratio r2"
  shows "spec_score r1 \<le> spec_score r2"
proof -
  have h: "fl (ugly_ratio r2 * (1/2)) \<le> fl (ugly_ratio r2 * 1)"
    using u eq(4) by (intro fl_mono) simp
  have same: "\<And>bonus penalty d.
      spec_synthesize r1 bonus penalty d \<le> spec_synthesize r2 bonus penalty d"
    by (rule spec_synthesize_mono) (simp_all add: eq w)
  have up: "\<And>bonus penalty. bonus \<le> fl (3/10) \<Longrightarrow> 0 \<le> penalty \<Longrightarrow>
      spec_synthesize r1 bonus penalty 1 \<le> spec_synthesize r2 (fl (3/10)) 0 (1/2)"
    by (rule spec_synthesize_mono) (use h in \<open>simp_all add: eq w\<close>)
  consider "fl (1/10) < water_ratio r1" | "water_ratio r2 \<le> fl (1/10)"
    | "water_ratio r1 \<le> fl (1/10)" "fl (1/10) < water_ratio r2"
    by linarith
  then show ?thesis
  proof cases
    case 1
    then have "fl (1/10) < water_ratio r2" using w by simp
    with 1 show ?thesis by (simp add: spec_score_def spec_classify_def same)
  next
    case 2
    then have "water_ratio r1 \<le> fl (1/10)" using w by simp
    with 2 show ?thesis by (simp add: spec_score_def spec_classify_def same eq)
  next
    case 3
    then show ?thesis
      by (simp add: spec_score_def spec_classify_def up lit_order)
  qed
qed

lemma spec_score_road:
  assumes eq: "bike_lane_ratio r1 = bike_lane_ratio r2" "water_ratio r1 = water_ratio r2"
      "nature_ratio r1 = nature_ratio r2" "ugly_ratio r1 = ugly_ratio r2"
    and st: "spec_status r1 = spec_status r2"
  shows "spec_score r1 = spec_score r2"
proof -
  have syn: "\<And>bonus penalty d. spec_synthesize r1 bonus penalty d = spec_synthesize r2 bonus penalty d"
    by (simp add: spec_synthesize_def eq)
  show ?thesis
    using st
    by (auto simp: spec_score_def spec_status_def spec_classify_def syn eq split: if_splits)
qed

lemma spec_status_road:
  assumes eq: "bike_lane_ratio r1 = bike_lane_ratio r2" "water_ratio r1 = water_ratio r2"
      "nature_ratio r1 = nature_ratio r2"
    and c: "(road_ratio r1 \<le> fl (4/10) \<and> road_ratio r2 \<le> fl (4/10))
        \<or> fl (1/10) < water_ratio r1 \<or> fl (5/100) < bike_lane_ratio r1
        \<or> fl (4/10) < nature_ratio r1"
  shows "spec_status r1 = spec_status r2"
  using c by (auto simp: spec_status_def spec_classify_def eq)

section \<open>Evaluating the example scenes\<close>

lemma count_list_replicate: "count_list (replicate n x) y = (if x = y then n else 0)"
  by (induction n) auto

lemma fl_numeral: "numeral k < (2::real) ^ 53 \<Longrightarrow> fl (numeral k) = numeral k"
proof -
  assume "numeral k < (2::real) ^ 53"
  then have "real_of_int (numeral k) < real_of_int (2 ^ 53)" by simp
  then have "(numeral k :: int) < 2 ^ 53" by (simp only: of_int_less_iff)
  then have "\<bar>numeral k :: int\<bar> < 2 ^ 53" by simp
  then have "fl (of_int (numeral k)) = of_int (numeral k)" by (rule fl_of_int)
  then show ?thesis by simp
qed

lemma fl_3_25: "fl (3 / 25) = 1080863910568919 / 9007199254740992"
  by (subst fl_eq_div[where j = 56]) (simp_all add: round_even_def)

lemma fl_3_20: "fl (3 / 20) = 5404319552844595 / 36028797018963968"
  by (subst fl_eq_div[where j = 55]) (simp_all add: round_even_def)

lemma fl_3_50: "fl (3 / 50) = 1080863910568919 / 18014398509481984"
  by (subst fl_eq_div[where j = 57]) (simp_all add: round_even_def)

lemma fl_93_100: "fl (93 / 100) = 8376695306909123 / 9007199254740992"
  by (subst fl_eq_div[where j = 53]) (simp_all add: round_even_def)

lemma fl_b_t1: "fl (3242591731706757 / 18014398509481984) = 3242591731706757 / 18014398509481984"
  by (subst fl_eq_div[where j = 55]) (simp_all add: round_even_def)

lemma fl_b_s1: "fl (12249790986447749 / 18014398509481984) = 3062447746611937 / 4503599627370496"
  by (subst fl_eq_div[where j = 53]) (simp_all add: round_even_def)

lemma fl_b_s1_idem: "fl (3062447746611937 / 4503599627370496) = 3062447746611937 / 4503599627370496"
  by (subst fl_eq_div[where j = 53]) (simp_all add: round_even_def)

lemma fl_b_uh: "fl (3602879701896397 / 72057594037927936) = 3602879701896397 / 72057594037927936"
  by (subst fl_eq_div[where j = 57]) (simp_all add: round_even_def)

lemma fl_b_s4: "fl (45396284243894595 / 72057594037927936) = 709316941310853 / 1125899906842624"
  by (subst fl_eq_div[where j = 53]) (simp_all add: round_even_def)

lemma fl_b_s5: "fl (16753390613818243 / 18014398509481984) = 4188347653454561 / 4503599627370496"
  by (subst fl_eq_div[where j = 53]) (simp_all add: round_even_def)

lemma fl_b_s5_idem: "fl (4188347653454561 / 4503599627370496) = 4188347653454561 / 4503599627370496"
  by (subst fl_eq_div[where j = 53]) (simp_all add: round_even_def)


lemmas scene_defs = scene_b_def scene_water_bike_def scene_water_5_def scene_water_15_def
  scene_road_10_def scene_road_30_def

lemmas ratio_eval = group_ratios_def ratio_of_def group_count_def ids_city pixels_def size_of_def
  count_list_replicate fl_numeral

lemma scene_b_eval:
  "calculate_score lower_greek vocab_city (Segmented scene_b) False =
     Inr ([], Fin (4188347653454561 / 4503599627370496), Waterfront)"
  by (simp add: scene_b_def score_eval ids_city count_list_replicate fl_numeral rnd_le_pow63
      fl_lits fl_3_25 fl_b_t1 fl_b_s1 fl_b_s1_idem fl_b_uh fl_b_s4 fl_b_s5 fl_b_s5_idem)

lemma scene_b_ratios:
  "water_ratio (group_ratios lower_greek vocab_city scene_b) = fl (12/100)"
  "ugly_ratio (group_ratios lower_greek vocab_city scene_b) = fl (20/100)"
  "bike_lane_ratio (group_ratios lower_greek vocab_city scene_b) = 0"
  "nature_ratio (group_ratios lower_greek vocab_city scene_b) = 0"
  "road_ratio (group_ratios lower_greek vocab_city scene_b) = 0"
  by (simp_all add: scene_b_def ratio_eval)

section \<open>The score formula and the rule table\<close>

text \<open>
  C1 (as the code has it). For every non-empty label map, with the status, bonus, penalty
  and ugly discount of the rule table, the returned score is
  \<open>clamp(0.5 + nature*0.5 + water*1.5 + bike*2.0 - (ugly*discount)*0.5 + bonus - penalty, 0, 1)\<close>
  with the terms applied in that order, every operation being the double operation
  (the exact result rounded to the nearest double).
\<close>

theorem score_formula:
  assumes "0 < size_of pred_seg" "size_of pred_seg < 2 ^ 63"
    and "r = group_ratios str_lower id2label pred_seg"
  shows "\<exists>status bonus penalty ugly_discount.
     spec_classify r = (status, bonus, penalty, ugly_discount)
     \<and> calculate_score str_lower id2label (Segmented pred_seg) debug =
         Inr (debug_report id2label pred_seg debug,
              Fin (clamp (fl (fl (fl (fl (fl (fl (1/2 + fl (nature_ratio r * (1/2)))
                      + fl (water_ratio r * (3/2)))
                    + fl (bike_lane_ratio r * 2))
                  - fl (fl (ugly_ratio r * ugly_discount) * (1/2)))
                + bonus)
              - penalty)) 0 1),
              status)"
proof -
  obtain status bonus penalty ugly_discount
    where c: "spec_classify r = (status, bonus, penalty, ugly_discount)"
    by (cases "spec_classify r") auto
  have "calculate_score str_lower id2label (Segmented pred_seg) debug =
      Inr (debug_report id2label pred_seg debug, Fin (spec_score r), spec_status r)"
    unfolding assms(3) by (rule calculate_score_ratios[OF assms(1,2)])
  then show ?thesis
    using c by (simp add: spec_score_def spec_status_def spec_synthesize_def Let_def)
qed

lemma scene_b_size: "0 < size_of scene_b" "size_of scene_b < 2 ^ 63"
  by (simp_all add: scene_b_def size_of_def pixels_def)

lemma scene_b_classify:
  "spec_classify (group_ratios lower_greek vocab_city scene_b) = (Waterfront, fl (3/10), 0, 1/2)"
  by (simp add: spec_classify_def scene_b_ratios fl_3_25 fl_lits)

text \<open>
  The formula on scenario B: \<open>water_ratio = 0.12\<close>, \<open>ugly_ratio = 0.20\<close>, every other ratio
  \<open>0\<close>, status Waterfront with bonus \<open>0.3\<close> and discount \<open>0.5\<close>.
\<close>

theorem score_formula_witness:
  "0 < size_of scene_b \<and> size_of scene_b < 2 ^ 63
   \<and> water_ratio (group_ratios lower_greek vocab_city scene_b) = fl (12/100)
   \<and> ugly_ratio (group_ratios lower_greek vocab_city scene_b) = fl (20/100)
   \<and> calculate_score lower_greek vocab_city (Segmented scene_b) False =
       Inr ([], Fin (clamp (fl (fl (fl (fl (fl (fl (1/2 + fl (0 * (1/2)))
                      + fl (fl (12/100) * (3/2)))
                    + fl (0 * 2))
                  - fl (fl (fl (20/100) * (1/2)) * (1/2)))
                + fl (3/10))
              - 0)) 0 1), Waterfront)"
proof -
  from score_formula[OF scene_b_size refl, where str_lower = lower_greek and id2label = vocab_city
      and debug = False]
  obtain status bonus penalty ugly_discount where
    c: "spec_classify (group_ratios lower_greek vocab_city scene_b) = (status, bonus, penalty, ugly_discount)"
    and e: "calculate_score lower_greek vocab_city (Segmented scene_b) False =
         Inr (debug_report vocab_city scene_b False,
              Fin (clamp (fl (fl (fl (fl (fl (fl (1/2
                        + fl (nature_ratio (group_ratios lower_greek vocab_city scene_b) * (1/2)))
                      + fl (water_ratio (group_ratios lower_greek vocab_city scene_b) * (3/2)))
                    + fl (bike_lane_ratio (group_ratios lower_greek vocab_city scene_b) * 2))
                  - fl (fl (ugly_ratio (group_ratios lower_greek vocab_city scene_b) * ugly_discount) * (1/2)))
                + bonus)
              - penalty)) 0 1),
              status)"
    by blast
  from c have v: "status = Waterfront" "bonus = fl (3/10)" "penalty = 0" "ugly_discount = 1/2"
    by (simp_all add: scene_b_classify)
  have d: "debug_report vocab_city scene_b False = []" by (simp add: debug_report_def)
  show ?thesis
    by (intro conjI scene_b_size scene_b_ratios(1,2))
       (simp only: e v d scene_b_ratios)
qed

text \<open>
  On scenario B the program does not return \<open>0.93\<close>: the two sums \<open>0.5 + 0.18\<close> and
  \<open>0.63 + 0.3\<close> are ties and round to the even neighbour, and the score is
  \<open>4188347653454561 / 2 ^ 52\<close> (printed \<open>0.9299999999999999\<close>), neither the real number
  \<open>93/100\<close> nor the double nearest to it.
\<close>

theorem score_formula_counterexample:
  "water_ratio (group_ratios lower_greek vocab_city scene_b) = fl (12/100)
   \<and> ugly_ratio (group_ratios lower_greek vocab_city scene_b) = fl (20/100)
   \<and> bike_lane_ratio (group_ratios lower_greek vocab_city scene_b) = 0
   \<and> nature_ratio (group_ratios lower_greek vocab_city scene_b) = 0
   \<and> road_ratio (group_ratios lower_greek vocab_city scene_b) = 0
   \<and> calculate_score lower_greek vocab_city (Segmented scene_b) False =
       Inr ([], Fin (4188347653454561 / 4503599627370496), Waterfront)
   \<and> (4188347653454561 / 4503599627370496 :: real) \<noteq> 93/100
   \<and> (4188347653454561 / 4503599627370496 :: real) \<noteq> fl (93/100)"
  using scene_b_eval scene_b_ratios by (simp add: fl_93_100)

text \<open>
  C2. For every non-empty label map the call returns exactly one status, from the closed
  set of five, chosen by the first rule that matches in the order
  \<open>water_ratio > 0.10\<close>, \<open>bike_lane_ratio > 0.05\<close>, \<open>nature_ratio > 0.40\<close>,
  \<open>road_ratio > 0.40\<close>, else Mixed/Urban; the score is synthesized with the bonus, penalty
  and ugly discount of that rule: \<open>(0.3, 0, 0.5)\<close>, \<open>(0.2, 0, 1.0)\<close>, \<open>(0.1, 0, 1.0)\<close>,
  \<open>(0, 0.2, 1.0)\<close>, \<open>(0, 0, 1.0)\<close>.
\<close>

theorem classifier_first_match:
  assumes "0 < size_of pred_seg" "size_of pred_seg < 2 ^ 63"
    and "r = group_ratios str_lower id2label pred_seg"
  shows "\<exists>out score st.
     calculate_score str_lower id2label (Segmented pred_seg) debug = Inr (out, score, st)
     \<and> st = (if fl (10/100) < water_ratio r then Waterfront
             else if fl (5/100) < bike_lane_ratio r then DedicatedBikeLane
             else if fl (40/100) < nature_ratio r then GreenTunnel
             else if fl (40/100) < road_ratio r then CityStreetNoBikeLane
             else MixedUrban)
     \<and> st \<in> {Waterfront, DedicatedBikeLane, GreenTunnel, CityStreetNoBikeLane, MixedUrban}
     \<and> score = Fin (case st of
           Waterfront \<Rightarrow> spec_synthesize r (fl (3/10)) 0 (1/2)
         | DedicatedBikeLane \<Rightarrow> spec_synthesize r (fl (2/10)) 0 1
         | GreenTunnel \<Rightarrow> spec_synthesize r (fl (1/10)) 0 1
         | CityStreetNoBikeLane \<Rightarrow> spec_synthesize r 0 (fl (2/10)) 1
         | _ \<Rightarrow> spec_synthesize r 0 0 1)"
proof -
  have "calculate_score str_lower id2label (Segmented pred_seg) debug =
      Inr (debug_report id2label pred_seg debug, Fin (spec_score r), spec_status r)"
    unfolding assms(3) by (rule calculate_score_ratios[OF assms(1,2)])
  then show ?thesis
    by (simp add: spec_score_def spec_status_def spec_classify_def)
qed

lemma scene_water_bike_size: "0 < size_of scene_water_bike" "size_of scene_water_bike < 2 ^ 63"
  by (simp_all add: scene_water_bike_def size_of_def pixels_def)

lemma scene_water_bike_ratios:
  "water_ratio (group_ratios lower_greek vocab_city scene_water_bike) = fl (15/100)"
  "bike_lane_ratio (group_ratios lower_greek vocab_city scene_water_bike) = fl (6/100)"
  by (simp_all add: scene_water_bike_def ratio_eval)

text \<open>
  The example of the claim: \<open>water_ratio = 0.15\<close> together with \<open>bike_lane_ratio = 0.06\<close>
  satisfies rule 1 and rule 2, and the status is Waterfront.
\<close>

theorem classifier_first_match_witness:
  "0 < size_of scene_water_bike \<and> size_of scene_water_bike < 2 ^ 63
   \<and> water_ratio (group_ratios lower_greek vocab_city scene_water_bike) = fl (15/100)
   \<and> bike_lane_ratio (group_ratios lower_greek vocab_city scene_water_bike) = fl (6/100)
   \<and> fl (10/100) < fl (15/100) \<and> fl (5/100) < fl (6/100)
   \<and> (\<exists>out score. calculate_score lower_greek vocab_city (Segmented scene_water_bike) False
         = Inr (out, score, Waterfront))"
proof -
  have lt: "fl (10/100) < fl (15/100)" "fl (5/100) < fl (6/100)"
    by (simp_all add: fl_3_20 fl_3_50 fl_lits)
  from classifier_first_match[OF scene_water_bike_size refl, where str_lower = lower_greek
      and id2label = vocab_city and debug = False]
  obtain out score st where
    e: "calculate_score lower_greek vocab_city (Segmented scene_water_bike) False = Inr (out, score, st)"
    and st: "st = (if fl (10/100) < water_ratio (group_ratios lower_greek vocab_city scene_water_bike)
             then Waterfront
             else if fl (5/100) < bike_lane_ratio (group_ratios lower_greek vocab_city scene_water_bike)
             then DedicatedBikeLane
             else if fl (40/100) < nature_ratio (group_ratios lower_greek vocab_city scene_water_bike)
             then GreenTunnel
             else if fl (40/100) < road_ratio (group_ratios lower_greek vocab_city scene_water_bike)
             then CityStreetNoBikeLane
             else MixedUrban)"
    by blast
  from st have "st = Waterfront"
    by (simp only: scene_water_bike_ratios lt if_True)
  with e have "\<exists>out score. calculate_score lower_greek vocab_city (Segmented scene_water_bike) False
         = Inr (out, score, Waterfront)" by blast
  then show ?thesis
    by (intro conjI scene_water_bike_size scene_water_bike_ratios lt)
qed

section \<open>The road ratio and the water ratio\<close>

text \<open>
  C7. Two non-empty inputs that agree on the bike lane, water, nature and ugly ratios and
  for which the same status is selected (in particular when both road ratios are at most
  \<open>0.40\<close>, or when one of the rules 1 to 3 fires) return the same score and the same
  status, whatever their road ratios are.
\<close>

theorem road_only_through_status:
  assumes s1: "0 < size_of seg1" "size_of seg1 < 2 ^ 63"
    and s2: "0 < size_of seg2" "size_of seg2 < 2 ^ 63"
    and r: "r1 = group_ratios str_lower vocab1 seg1" "r2 = group_ratios str_lower vocab2 seg2"
    and eq: "bike_lane_ratio r1 = bike_lane_ratio r2" "water_ratio r1 = water_ratio r2"
      "nature_ratio r1 = nature_ratio r2" "ugly_ratio r1 = ugly_ratio r2"
    and c1: "calculate_score str_lower vocab1 (Segmented seg1) debug1 = Inr (out1, score1, st1)"
    and c2: "calculate_score str_lower vocab2 (Segmented seg2) debug2 = Inr (out2, score2, st2)"
    and same: "st1 = st2
        \<or> (road_ratio r1 \<le> fl (40/100) \<and> road_ratio r2 \<le> fl (40/100))
        \<or> fl (10/100) < water_ratio r1 \<or> fl (5/100) < bike_lane_ratio r1
        \<or> fl (40/100) < nature_ratio r1"
  shows "score1 = score2 \<and> st1 = st2"
proof -
  have e1: "score1 = Fin (spec_score r1)" "st1 = spec_status r1"
    using c1 calculate_score_ratios[OF s1, where str_lower = str_lower and id2label = vocab1
      and debug = debug1] by (simp_all add: r)
  have e2: "score2 = Fin (spec_score r2)" "st2 = spec_status r2"
    using c2 calculate_score_ratios[OF s2, where str_lower = str_lower and id2label = vocab2
      and debug = debug2] by (simp_all add: r)
  have st: "spec_status r1 = spec_status r2"
  proof (cases "st1 = st2")
    case True
    then show ?thesis by (simp add: e1 e2)
  next
    case False
    with same have "(road_ratio r1 \<le> fl (4/10) \<and> road_ratio r2 \<le> fl (4/10))
        \<or> fl (1/10) < water_ratio r1 \<or> fl (5/100) < bike_lane_ratio r1
        \<or> fl (4/10) < nature_ratio r1" by simp
    then show ?thesis by (rule spec_status_road[OF eq(1,2,3)])
  qed
  have "spec_score r1 = spec_score r2" by (rule spec_score_road[OF eq st])
  then show ?thesis by (simp add: e1 e2 st)
qed

lemma scene_road_size:
  "0 < size_of scene_road_10" "size_of scene_road_10 < 2 ^ 63"
  "0 < size_of scene_road_30" "size_of scene_road_30 < 2 ^ 63"
  by (simp_all add: scene_road_10_def scene_road_30_def size_of_def pixels_def)

lemma scene_road_ratios:
  "bike_lane_ratio (group_ratios lower_greek vocab_city scene_road_10) = 0"
  "water_ratio (group_ratios lower_greek vocab_city scene_road_10) = 0"
  "nature_ratio (group_ratios lower_greek vocab_city scene_road_10) = 0"
  "ugly_ratio (group_ratios lower_greek vocab_city scene_road_10) = 0"
  "road_ratio (group_ratios lower_greek vocab_city scene_road_10) = fl (10/100)"
  "bike_lane_ratio (group_ratios lower_greek vocab_city scene_road_30) = 0"
  "water_ratio (group_ratios lower_greek vocab_city scene_road_30) = 0"
  "nature_ratio (group_ratios lower_greek vocab_city scene_road_30) = 0"
  "ugly_ratio (group_ratios lower_greek vocab_city scene_road_30) = 0"
  "road_ratio (group_ratios lower_greek vocab_city scene_road_30) = fl (30/100)"
  by (simp_all add: scene_road_10_def scene_road_30_def ratio_eval)

theorem road_only_through_status_witness:
  "road_ratio (group_ratios lower_greek vocab_city scene_road_10) = fl (10/100)
   \<and> road_ratio (group_ratios lower_greek vocab_city scene_road_30) = fl (30/100)
   \<and> fl (10/100) < fl (30/100) \<and> fl (30/100) \<le> fl (40/100)
   \<and> (\<exists>out1 out2 score st.
        calculate_score lower_greek vocab_city (Segmented scene_road_10) False = Inr (out1, score, st)
        \<and> calculate_score lower_greek vocab_city (Segmented scene_road_30) True = Inr (out2, score, st))"
proof -
  have lt: "fl (10/100) < fl (30/100)" "fl (30/100) \<le> fl (40/100)"
    by (simp_all add: fl_lits)
  obtain out1 score1 st1 where
    c1: "calculate_score lower_greek vocab_city (Segmented scene_road_10) False = Inr (out1, score1, st1)"
    using calculate_score_ratios[OF scene_road_size(1,2)] by blast
  obtain out2 score2 st2 where
    c2: "calculate_score lower_greek vocab_city (Segmented scene_road_30) True = Inr (out2, score2, st2)"
    using calculate_score_ratios[OF scene_road_size(3,4)] by blast
  have "score1 = score2 \<and> st1 = st2"
  proof (rule road_only_through_status[OF scene_road_size refl refl _ _ _ _ c1 c2])
    show "st1 = st2
        \<or> (road_ratio (group_ratios lower_greek vocab_city scene_road_10) \<le> fl (40/100)
            \<and> road_ratio (group_ratios lower_greek vocab_city scene_road_30) \<le> fl (40/100))
        \<or> fl (10/100) < water_ratio (group_ratios lower_greek vocab_city scene_road_10)
        \<or> fl (5/100) < bike_lane_ratio (group_ratios lower_greek vocab_city scene_road_10)
        \<or> fl (40/100) < nature_ratio (group_ratios lower_greek vocab_city scene_road_10)"
      by (simp add: scene_road_ratios fl_lits)
  qed (simp_all only: scene_road_ratios)
  with c1 c2 have "\<exists>out1 out2 score st.
        calculate_score lower_greek vocab_city (Segmented scene_road_10) False = Inr (out1, score, st)
        \<and> calculate_score lower_greek vocab_city (Segmented scene_road_30) True = Inr (out2, score, st)"
    by blast
  then show ?thesis
    by (intro conjI scene_road_ratios(5) scene_road_ratios(10) lt)
qed

text \<open>
  C10. Two non-empty inputs that agree on the bike lane, nature, road and ugly ratios:
  the one with the larger water ratio has the larger or equal score.
\<close>

theorem water_monotone:
  assumes s1: "0 < size_of seg1" "size_of seg1 < 2 ^ 63"
    and s2: "0 < size_of seg2" "size_of seg2 < 2 ^ 63"
    and r: "r1 = group_ratios str_lower vocab1 seg1" "r2 = group_ratios str_lower vocab2 seg2"
    and eq: "bike_lane_ratio r1 = bike_lane_ratio r2" "nature_ratio r1 = nature_ratio r2"
      "road_ratio r1 = road_ratio r2" "ugly_ratio r1 = ugly_ratio r2"
    and w: "water_ratio r1 \<le> water_ratio r2"
    and c1: "calculate_score str_lower vocab1 (Segmented seg1) debug1 = Inr (out1, Fin score1, st1)"
    and c2: "calculate_score str_lower vocab2 (Segmented seg2) debug2 = Inr (out2, Fin score2, st2)"
  shows "score1 \<le> score2"
proof -
  have e1: "score1 = spec_score r1"
    using c1 calculate_score_ratios[OF s1, where str_lower = str_lower and id2label = vocab1
      and debug = debug1] by (simp add: r)
  have e2: "score2 = spec_score r2"
    using c2 calculate_score_ratios[OF s2, where str_lower = str_lower and id2label = vocab2
      and debug = debug2] by (simp add: r)
  have "group_count seg1 (UGLY_IDS str_lower vocab1) \<le> size_of seg1"
    by (rule group_count_le) simp
  then have "0 \<le> ugly_ratio r1"
    using ratio_of_unit(1)[OF _ s1(1)] by (simp add: r group_ratios_def)
  then show ?thesis
    unfolding e1 e2 by (rule spec_score_mono[OF eq _ w])
qed

lemma scene_water_size:
  "0 < size_of scene_water_5" "size_of scene_water_5 < 2 ^ 63"
  "0 < size_of scene_water_15" "size_of scene_water_15 < 2 ^ 63"
  by (simp_all add: scene_water_5_def scene_water_15_def size_of_def pixels_def)

lemma scene_water_ratios:
  "bike_lane_ratio (group_ratios lower_greek vocab_city scene_water_5) = 0"
  "nature_ratio (group_ratios lower_greek vocab_city scene_water_5) = 0"
  "road_ratio (group_ratios lower_greek vocab_city scene_water_5) = 0"
  "ugly_ratio (group_ratios lower_greek vocab_city scene_water_5) = 0"
  "water_ratio (group_ratios lower_greek vocab_city scene_water_5) = fl (5/100)"
  "bike_lane_ratio (group_ratios lower_greek vocab_city scene_water_15) = 0"
  "nature_ratio (group_ratios lower_greek vocab_city scene_water_15) = 0"
  "road_ratio (group_ratios lower_greek vocab_city scene_water_15) = 0"
  "ugly_ratio (group_ratios lower_greek vocab_city scene_water_15) = 0"
  "water_ratio (group_ratios lower_greek vocab_city scene_water_15) = fl (15/100)"
  by (simp_all add: scene_water_5_def scene_water_15_def ratio_eval)

theorem water_monotone_witness:
  "water_ratio (group_ratios lower_greek vocab_city scene_water_5) = fl (5/100)
   \<and> water_ratio (group_ratios lower_greek vocab_city scene_water_15) = fl (15/100)
   \<and> fl (5/100) \<le> fl (10/100) \<and> fl (10/100) < fl (15/100)
   \<and> (\<exists>out1 out2 score1 score2.
        calculate_score lower_greek vocab_city (Segmented scene_water_5) False
          = Inr (out1, Fin score1, MixedUrban)
        \<and> calculate_score lower_greek vocab_city (Segmented scene_water_15) False
          = Inr (out2, Fin score2, Waterfront)
        \<and> score1 \<le> score2)"
proof -
  have lt: "fl (5/100) \<le> fl (10/100)" "fl (10/100) < fl (15/100)"
    by (simp_all add: fl_lits fl_3_20)
  have st: "spec_status (group_ratios lower_greek vocab_city scene_water_5) = MixedUrban"
    "spec_status (group_ratios lower_greek vocab_city scene_water_15) = Waterfront"
    by (simp_all add: spec_status_def spec_classify_def scene_water_ratios fl_lits fl_3_20)
  have c1: "calculate_score lower_greek vocab_city (Segmented scene_water_5) False =
      Inr ([], Fin (spec_score (group_ratios lower_greek vocab_city scene_water_5)), MixedUrban)"
    using calculate_score_ratios[OF scene_water_size(1,2), where str_lower = lower_greek
      and id2label = vocab_city and debug = False]
    by (simp add: st debug_report_def)
  have c2: "calculate_score lower_greek vocab_city (Segmented scene_water_15) False =
      Inr ([], Fin (spec_score (group_ratios lower_greek vocab_city scene_water_15)), Waterfront)"
    using calculate_score_ratios[OF scene_water_size(3,4), where str_lower = lower_greek
      and id2label = vocab_city and debug = False]
    by (simp add: st debug_report_def)
  have "spec_score (group_ratios lower_greek vocab_city scene_water_5)
      \<le> spec_score (group_ratios lower_greek vocab_city scene_water_15)"
  proof (rule water_monotone[OF scene_water_size refl refl _ _ _ _ _ c1 c2])
    show "water_ratio (group_ratios lower_greek vocab_city scene_water_5)
        \<le> water_ratio (group_ratios lower_greek vocab_city scene_water_15)"
      using lt by (simp only: scene_water_ratios)
  qed (simp_all only: scene_water_ratios)
  with c1 c2 have "\<exists>out1 out2 score1 score2.
        calculate_score lower_greek vocab_city (Segmented scene_water_5) False
          = Inr (out1, Fin score1, MixedUrban)
        \<and> calculate_score lower_greek vocab_city (Segmented scene_water_15) False
          = Inr (out2, Fin score2, Waterfront)
        \<and> score1 \<le> score2"
    by blast
  then show ?thesis
    by (intro conjI scene_water_ratios(5) scene_water_ratios(10) lt)
qed

end
